theory Spec2Isabelle
  imports Main "HOL-Library.AList"
begin

section \<open>JavaScript values used by the client\<close>

text \<open>
  A value of TypeScript type \<open>string | null\<close> is a \<open>string option\<close>. The source
  tests such values with \<open>if (x)\<close>: \<open>null\<close>, \<open>undefined\<close> and the empty string are
  falsy, every other string is truthy.
\<close>

fun truthy :: "string option \<Rightarrow> bool" where
  "truthy None = False"
| "truthy (Some s) = (s \<noteq> [])"

text \<open>Decimal rendering of a number inside a template string (integers only).\<close>

function show_nat :: "nat \<Rightarrow> string" where
  "show_nat n =
     (if n < 10 then [''0123456789'' ! n]
      else show_nat (n div 10) @ [''0123456789'' ! (n mod 10)])"
  by pat_completeness auto
termination
  by (relation "measure (\<lambda>n. n)") auto

definition show_int :: "int \<Rightarrow> string" where
  "show_int i = (if i < 0 then CHR ''-'' # show_nat (nat (- i)) else show_nat (nat i))"

text \<open>\<open>s.includes(sub)\<close>: \<open>sub\<close> occurs in \<open>s\<close> as a contiguous substring.\<close>

fun includes_str :: "string \<Rightarrow> string \<Rightarrow> bool" where
  "includes_str [] sub = (sub = [])"
| "includes_str (x # xs) sub = (take (length sub) (x # xs) = sub \<or> includes_str xs sub)"

section \<open>Transport client: \<open>class ApiClient\<close>\<close>

record RetryConfig =
  maxRetries :: int
  retryDelay :: int
  retryStatuses :: "int list"

record ApiClient =
  baseUrl :: string
  retryConfig :: RetryConfig
  authToken :: "string option"
  apiKey :: "string option"

definition defaultRetryConfig :: RetryConfig where
  "defaultRetryConfig =
     \<lparr>maxRetries = 3, retryDelay = 1000, retryStatuses = [408, 429, 500, 502, 503, 504]\<rparr>"

text \<open>The constructor: both credential fields start as \<open>null\<close>.\<close>

definition newApiClient :: "string \<Rightarrow> RetryConfig \<Rightarrow> ApiClient" where
  "newApiClient url cfg = \<lparr>baseUrl = url, retryConfig = cfg, authToken = None, apiKey = None\<rparr>"

definition setAuthToken :: "string option \<Rightarrow> ApiClient \<Rightarrow> ApiClient" where
  "setAuthToken token c =
     (let c1 = c\<lparr>authToken := token\<rparr>
      in if truthy token then c1\<lparr>apiKey := None\<rparr> else c1)"

definition setApiKey :: "string option \<Rightarrow> ApiClient \<Rightarrow> ApiClient" where
  "setApiKey key c =
     (let c1 = c\<lparr>apiKey := key\<rparr>
      in if truthy key then c1\<lparr>authToken := None\<rparr> else c1)"

text \<open>A sequence of credential calls made on one client, in order.\<close>

datatype CredentialCall = SetAuthToken "string option" | SetApiKey "string option"

fun credentialCall :: "CredentialCall \<Rightarrow> ApiClient \<Rightarrow> ApiClient" where
  "credentialCall (SetAuthToken token) c = setAuthToken token c"
| "credentialCall (SetApiKey key) c = setApiKey key c"

definition credentialCalls :: "CredentialCall list \<Rightarrow> ApiClient \<Rightarrow> ApiClient" where
  "credentialCalls calls c = fold credentialCall calls c"

subsection \<open>Responses and error classification\<close>

text \<open>
  \<open>interface ApiError\<close>: every field is optional, and a field that is present is a
  string, as the interface declares. A parsed JSON body is an object carrying these fields
  next to its payload, which is the extension part of the record.
\<close>

record ApiError =
  detail :: "string option"
  message :: "string option"
  code :: "string option"
  field :: "string option"

text \<open>
  The part of a fetch \<open>Response\<close> the client reads. \<open>json\<close> is the outcome of
  \<open>response.json()\<close>: \<open>None\<close> when the body is not JSON and the promise rejects.
\<close>

record 'a Response =
  status :: int
  statusText :: string
  json :: "'a ApiError_scheme option"

definition ok :: "'a Response \<Rightarrow> bool" where
  "ok response = (200 \<le> status response \<and> status response \<le> 299)"

definition statusLine :: "'a Response \<Rightarrow> string" where
  "statusLine response =
     ''API request failed: '' @ statusText response @ '' ('' @ show_int (status response) @ '')''"

definition parseErrorResponse :: "'a Response \<Rightarrow> string" where
  "parseErrorResponse response =
     (case json response of
        Some errorData \<Rightarrow>
          if status response = 401 then ''Authentication failed. Please log in again.''
          else if status response = 403
            then ''Access denied. You don't have permission to perform this action.''
          else if status response = 500
            then ''Server error. Please try again later or contact support.''
          else if truthy (detail errorData) then the (detail errorData)
          else if truthy (message errorData) then the (message errorData)
          else if truthy (code errorData)
            then ''Error '' @ the (code errorData) @ '': '' @ statusText response
          else statusLine response
      | None \<Rightarrow>
          if status response = 401 then ''Authentication failed. Please log in again.''
          else if status response = 403
            then ''Access denied. You don't have permission to perform this action.''
          else if status response = 500 then ''Server error. Please try again later.''
          else statusLine response)"

subsection \<open>\<open>ApiClient.request\<close>\<close>

text \<open>\<open>RequestInit\<close>, as far as the client reads it.\<close>

record RequestInit =
  http_method :: "string option"
  headers :: "(string \<times> string) list"
  body :: "string option"

definition noOptions :: RequestInit where
  "noOptions = \<lparr>http_method = None, headers = [], body = None\<rparr>"

text \<open>
  What \<open>await fetch(url, ...)\<close> can do: resolve with a response, or reject with a thrown
  value. The \<open>catch\<close> block of \<open>request\<close> tells an \<open>Error\<close> instance from other thrown
  values, and \<open>getErrorMessage\<close> reads the latter.
\<close>

datatype Thrown =
    ErrorInstance string
  | StringValue string
  | ObjectWithMessage string
  | OtherValue

datatype 'a FetchOutcome = Responded "'a Response" | Rejected Thrown

definition getErrorMessage :: "Thrown \<Rightarrow> string" where
  "getErrorMessage error =
     (case error of
        ErrorInstance m \<Rightarrow> m
      | StringValue s \<Rightarrow> s
      | ObjectWithMessage m \<Rightarrow> m
      | OtherValue \<Rightarrow> ''An unexpected error occurred'')"

text \<open>
  The observable effects of a request, in order: each call of \<open>fetch\<close> with its URL, method
  and headers, each \<open>delay(ms)\<close>, and each assignment to \<open>window.location.href\<close>.
\<close>

datatype Event =
    Fetch string "string option" "(string \<times> string) list"
  | Delay int
  | Redirect string

text \<open>
  The world a request runs in: \<open>pathname\<close> is \<open>window.location.pathname\<close> (\<open>None\<close> where
  \<open>window\<close> is undefined), \<open>served\<close> counts the fetch calls made so far, and \<open>trace\<close> is
  the log of effects. The network is a function from the index of a fetch call to its
  outcome.
\<close>

record World =
  pathname :: "string option"
  served :: nat
  trace :: "Event list"

definition fetch ::
  "(nat \<Rightarrow> 'a FetchOutcome) \<Rightarrow> string \<Rightarrow> RequestInit \<Rightarrow> (string \<times> string) list \<Rightarrow> World
     \<Rightarrow> 'a FetchOutcome \<times> World" where
  "fetch net url options hdrs w =
     (net (served w),
      w\<lparr>served := Suc (served w), trace := trace w @ [Fetch url (http_method options) hdrs]\<rparr>)"

definition delay :: "int \<Rightarrow> World \<Rightarrow> World" where
  "delay ms w = w\<lparr>trace := trace w @ [Delay ms]\<rparr>"

text \<open>
  The 401 branch: navigate to the login page unless already there. The assignment starts a
  navigation; \<open>pathname\<close> itself is not changed by it while the request is running.
\<close>

definition loginRedirect :: "World \<Rightarrow> World" where
  "loginRedirect w =
     (case pathname w of
        None \<Rightarrow> w
      | Some p \<Rightarrow>
          if \<not> includes_str p ''/login'' then w\<lparr>trace := trace w @ [Redirect ''/login'']\<rparr>
          else w)"

text \<open>
  The headers sent: \<open>Content-Type\<close>, then the caller's headers (a later key replaces an
  earlier one, as in an object spread), then the credential header.
\<close>

definition buildHeaders :: "ApiClient \<Rightarrow> RequestInit \<Rightarrow> (string \<times> string) list" where
  "buildHeaders c options =
     (let hdrs = fold (\<lambda>(k, v). AList.update k v) (headers options)
                   [(''Content-Type'', ''application/json'')]
      in if truthy (apiKey c) then AList.update ''x-api-key'' (the (apiKey c)) hdrs
         else if truthy (authToken c)
           then AList.update ''Authorization'' (''Bearer '' @ the (authToken c)) hdrs
         else hdrs)"

definition isNonIdempotent :: "RequestInit \<Rightarrow> bool" where
  "isNonIdempotent options =
     ((if truthy (http_method options) then the (http_method options) else ''GET'')
        \<in> set [''POST'', ''PUT'', ''PATCH'', ''DELETE''])"

definition shouldRetryOnServerError :: "string \<Rightarrow> RequestInit \<Rightarrow> bool" where
  "shouldRetryOnServerError endpoint options =
     (\<not> isNonIdempotent options \<or> endpoint \<noteq> ''/api/auth/api-keys'')"

definition shouldRetry :: "ApiClient \<Rightarrow> string \<Rightarrow> RequestInit \<Rightarrow> int \<Rightarrow> 'a Response \<Rightarrow> bool" where
  "shouldRetry c endpoint options retryCount response =
     (retryCount < maxRetries (retryConfig c) \<and>
      status response \<in> set (retryStatuses (retryConfig c)) \<and>
      (status response \<noteq> 500 \<or> shouldRetryOnServerError endpoint options))"

text \<open>
  What a request ends with: a value (\<open>None\<close> is the \<open>null\<close> returned for status 204), or a
  rejection. \<open>JsonSyntaxError\<close> is the rejection of \<open>response.json()\<close> on a successful
  response whose body is not JSON; its message is the engine's.
\<close>

datatype Failure = Error string | JsonSyntaxError

text \<open>
  \<open>request(endpoint, options, retryCount)\<close>. The \<open>throw new Error(errorMessage)\<close> of the
  \<open>!response.ok\<close> branch stands inside the \<open>try\<close> block, so it is caught by the \<open>catch\<close>
  block of the same call, as a network failure is. The recursive calls are returned without
  \<open>await\<close>, so their rejections are not caught by the caller's \<open>catch\<close>; so is the
  \<open>response.json()\<close> of a successful response.
\<close>

function request ::
  "ApiClient \<Rightarrow> (nat \<Rightarrow> 'a FetchOutcome) \<Rightarrow> string \<Rightarrow> RequestInit \<Rightarrow> int \<Rightarrow> World
     \<Rightarrow> (Failure + 'a ApiError_scheme option) \<times> World" where
  "request c net endpoint options retryCount w =
     (let url = baseUrl c @ endpoint;
          hdrs = buildHeaders c options;
          (outcome, w1) = fetch net url options hdrs w
      in case outcome of
           Responded response \<Rightarrow>
             if \<not> ok response then
               let errorMessage = parseErrorResponse response
               in if shouldRetry c endpoint options retryCount response then
                    request c net endpoint options (retryCount + 1)
                      (delay (retryDelay (retryConfig c) * (retryCount + 1)) w1)
                  else
                    let w2 = (if status response = 401 then loginRedirect w1 else w1)
                    in \<comment> \<open>\<open>throw new Error(errorMessage)\<close>, caught below by \<open>catch (error)\<close>\<close>
                       if retryCount < maxRetries (retryConfig c) then
                         request c net endpoint options (retryCount + 1)
                           (delay (retryDelay (retryConfig c) * (retryCount + 1)) w2)
                       else (Inl (Error errorMessage), w2)
             else if status response = 204 then (Inr None, w1)
             else (case json response of
                     None \<Rightarrow> (Inl JsonSyntaxError, w1)
                   | Some v \<Rightarrow> (Inr (Some v), w1))
         | Rejected error \<Rightarrow>
             (case error of
                ErrorInstance m \<Rightarrow>
                  if retryCount < maxRetries (retryConfig c) then
                    request c net endpoint options (retryCount + 1)
                      (delay (retryDelay (retryConfig c) * (retryCount + 1)) w1)
                  else (Inl (Error m), w1)
              | _ \<Rightarrow> (Inl (Error (getErrorMessage error)), w1)))"
  by pat_completeness auto
termination
  by (relation "measure (\<lambda>(c, net, endpoint, options, retryCount, w).
                   nat (maxRetries (retryConfig c) - retryCount))")
     (auto simp: shouldRetry_def)

declare request.simps [simp del]

section \<open>Authentication state machine: \<open>use-auth.ts\<close>\<close>

record UserResponse =
  user_id :: int
  username :: string
  email :: "string option"

record AuthState =
  user :: "UserResponse option"
  isAuthenticated :: bool
  isLoading :: bool

datatype AuthAction =
    SET_USER "UserResponse option"
  | SET_LOADING bool
  | LOGOUT

fun authReducer :: "AuthState \<Rightarrow> AuthAction \<Rightarrow> AuthState" where
  "authReducer state (SET_USER payload) =
     state\<lparr>user := payload, isAuthenticated := (payload \<noteq> None), isLoading := False\<rparr>"
| "authReducer state (SET_LOADING payload) = state\<lparr>isLoading := payload\<rparr>"
| "authReducer state LOGOUT = \<lparr>user = None, isAuthenticated = False, isLoading = False\<rparr>"

definition initialState :: AuthState where
  "initialState = \<lparr>user = None, isAuthenticated = False, isLoading = True\<rparr>"

definition TOKEN_KEY :: string where
  "TOKEN_KEY = ''easymcp_auth_token''"

text \<open>
  Everything the provider touches: the reducer state, the \<open>api\<close> singleton, \<open>localStorage\<close>
  and the world of the transport client. \<open>window\<close> is defined iff \<open>pathname\<close> is.
\<close>

record App =
  session :: AuthState
  api :: ApiClient
  localStorage :: "string \<rightharpoonup> string"
  world :: World

definition getStoredToken :: "App \<Rightarrow> string option" where
  "getStoredToken app =
     (if pathname (world app) \<noteq> None then localStorage app TOKEN_KEY else None)"

definition setStoredToken :: "string \<Rightarrow> App \<Rightarrow> App" where
  "setStoredToken token app =
     (if pathname (world app) \<noteq> None
      then app\<lparr>localStorage := (localStorage app)(TOKEN_KEY \<mapsto> token)\<rparr> else app)"

definition removeStoredToken :: "App \<Rightarrow> App" where
  "removeStoredToken app =
     (if pathname (world app) \<noteq> None
      then app\<lparr>localStorage := (localStorage app)(TOKEN_KEY := None)\<rparr> else app)"

definition setupAuthInterceptor :: "string option \<Rightarrow> App \<Rightarrow> App" where
  "setupAuthInterceptor token app = app\<lparr>api := setAuthToken token (api app)\<rparr>"

definition dispatch :: "AuthAction \<Rightarrow> App \<Rightarrow> App" where
  "dispatch action app = app\<lparr>session := authReducer (session app) action\<rparr>"

definition getCurrentUser ::
  "ApiClient \<Rightarrow> (nat \<Rightarrow> UserResponse FetchOutcome) \<Rightarrow> World
     \<Rightarrow> (Failure + UserResponse ApiError_scheme option) \<times> World" where
  "getCurrentUser c net w = request c net ''/api/auth/me'' noOptions 0 w"

text \<open>
  The effect \<open>AuthProvider\<close> runs once on mount, with the promise of \<open>getCurrentUser\<close>
  followed to its settlement. The resolved body is read as a \<open>UserResponse\<close>; the \<open>null\<close>
  of a 204 response is dispatched as it is.
\<close>

definition bootEffect :: "(nat \<Rightarrow> UserResponse FetchOutcome) \<Rightarrow> App \<Rightarrow> App" where
  "bootEffect net app =
     (let token = getStoredToken app
      in if truthy token then
           let app1 = setupAuthInterceptor token app;
               (result, w1) = getCurrentUser (api app1) net (world app1);
               app2 = app1\<lparr>world := w1\<rparr>
           in case result of
                Inr parsed \<Rightarrow> dispatch (SET_USER (map_option ApiError.more parsed)) app2
              | Inl _ \<Rightarrow> dispatch LOGOUT (setupAuthInterceptor None (removeStoredToken app2))
         else dispatch (SET_LOADING False) (setupAuthInterceptor None app))"

text \<open>The application at process start: the initial reducer state and a fresh client.\<close>

definition startApp :: "string \<Rightarrow> (string \<rightharpoonup> string) \<Rightarrow> World \<Rightarrow> App" where
  "startApp url storage w =
     \<lparr>session = initialState, api = newApiClient url defaultRetryConfig,
      localStorage = storage, world = w\<rparr>"

section \<open>Query orchestrator: \<open>use-system-query.ts\<close>\<close>

definition POLLING_INTERVALS :: "(string \<times> int) list" where
  "POLLING_INTERVALS =
     [(''SYSTEM_STATUS'', 120000), (''SYSTEM_HEALTH'', 120000),
      (''SYSTEM_METRICS'', 120000), (''MCP_STATISTICS'', 30000)]"

definition STALE_TIME :: "(string \<times> int) list" where
  "STALE_TIME = [(''DEFAULT'', 1000 * 60), (''SYSTEM_DATA'', 1000 * 30), (''REAL_TIME'', 1000 * 10)]"

text \<open>
  \<open>POLLING_INTERVALS\<close> is a plain object: \<open>POLLING_INTERVALS[key]\<close> finds its own
  properties and, for any other key, the members it inherits from \<open>Object.prototype\<close>,
  which are functions (an object for \<open>__proto__\<close>) and so truthy.
\<close>

definition objectPrototypeKeys :: "string list" where
  "objectPrototypeKeys =
     [''constructor'', ''hasOwnProperty'', ''isPrototypeOf'', ''propertyIsEnumerable'',
      ''toLocaleString'', ''toString'', ''valueOf'', ''__proto__'', ''__defineGetter__'',
      ''__defineSetter__'', ''__lookupGetter__'', ''__lookupSetter__'']"

text \<open>
  A value of \<open>refetchInterval\<close>: a number of milliseconds, \<open>false\<close>, or an inherited member
  that the lookup above has let through.
\<close>

datatype RefetchInterval = Millis int | NoRefetch | InheritedMember string

text \<open>
  An optional property of an options object. \<open>{enabled: undefined}\<close> has the property,
  holding \<open>undefined\<close>; \<open>{}\<close> does not have it. The two differ under an object spread.
\<close>

datatype 'a Property = Missing | PresentUndefined | Present 'a

text \<open>\<open>UseSystemQueryOptions\<close>, with the properties the hooks of the repository name.\<close>

record UseSystemQueryOptions =
  enabled :: "bool Property"
  refetchInterval :: "RefetchInterval Property"
  staleTime :: "int Property"

text \<open>
  The object handed to \<open>useQuery\<close>: the same properties with \<open>queryKey\<close>, \<open>queryFn\<close> and
  \<open>select\<close>.
\<close>

record 'v UseQueryOptions = UseSystemQueryOptions +
  queryKey_uq :: "string list"
  queryFn :: "World \<Rightarrow> (Failure + 'v) \<times> World"
  select :: "('v \<Rightarrow> 'v) option"


text \<open>
  A property written in an object literal and followed by \<open>...options\<close>: an own property
  of \<open>options\<close> replaces it, also when it holds \<open>undefined\<close>.
\<close>

definition spread :: "'a Property \<Rightarrow> 'a Property \<Rightarrow> 'a Property" where
  "spread written over = (case over of Missing \<Rightarrow> written | _ \<Rightarrow> over)"

text \<open>\<open>p ?? d\<close>: the default for a property that is missing or holds \<open>undefined\<close>.\<close>

definition nullish :: "'a Property \<Rightarrow> 'a \<Rightarrow> 'a" where
  "nullish p d = (case p of Present v \<Rightarrow> v | _ \<Rightarrow> d)"

definition useSystemQuery ::
  "string \<Rightarrow> (World \<Rightarrow> (Failure + 'v) \<times> World) \<Rightarrow> UseSystemQueryOptions \<Rightarrow> AuthState \<Rightarrow> bool
     \<Rightarrow> 'v UseQueryOptions" where
  "useSystemQuery key fn options auth isVisible =
     (let baseInterval =
            (case map_of POLLING_INTERVALS key of
               Some n \<Rightarrow>
                 if n \<noteq> 0 then Millis n
                 else Millis (the (map_of POLLING_INTERVALS ''SYSTEM_STATUS''))
             | None \<Rightarrow>
                 if key \<in> set objectPrototypeKeys then InheritedMember key
                 else Millis (the (map_of POLLING_INTERVALS ''SYSTEM_STATUS'')))
      in \<lparr>enabled =
            spread (Present (nullish (enabled options) True \<and> isAuthenticated auth))
              (enabled options),
          refetchInterval =
            spread (Present (if isVisible then baseInterval else NoRefetch))
              (refetchInterval options),
          staleTime =
            spread (Present (the (map_of STALE_TIME ''SYSTEM_DATA''))) (staleTime options),
          queryKey_uq = [''system'', key],
          queryFn = fn,
          select = None\<rparr>)"









subsection \<open>The library's \<open>useQuery\<close> under the providers' \<open>QueryClient\<close>\<close>

text \<open>
  The defaults the providers give their \<open>QueryClient\<close>:
  \<open>queries: { staleTime: 1000 * 60, retry: 1, refetchOnWindowFocus: false }\<close>.
\<close>

definition queries_staleTime :: int where
  "queries_staleTime = 1000 * 60"


definition queries_refetchOnWindowFocus :: bool where
  "queries_refetchOnWindowFocus = False"



subsection \<open>Gated reads of \<open>use-api-queries.ts\<close>\<close>

text \<open>
  \<open>ServerListResponse\<close>: \<open>servers\<close> is an object from server names to server data;
  \<open>None\<close> is a missing or \<open>null\<close> property.
\<close>

record 's ServerListResponse =
  servers :: "(string \<times> 's) list option"







section \<open>Mutation orchestrator: \<open>useOptimisticUpdate\<close>\<close>

text \<open>
  What \<open>getQueryData\<close> can return for a key: \<open>undefined\<close> when the cache holds nothing,
  \<open>null\<close>, or the array. In the test \<open>if (previousData)\<close> every array is truthy, the
  empty one too.
\<close>

datatype 'a CacheValue = Undefined | Null | Data "'a list"

fun present :: "'a CacheValue \<Rightarrow> bool" where
  "present (Data xs) = True"
| "present _ = False"

text \<open>The shared cache: the data per key, and the log of cancel and invalidate calls.\<close>

record 'a QueryClient =
  queryData :: "string list \<Rightarrow> 'a CacheValue"
  cancelled :: "string list list"
  invalidated :: "string list list"

definition getQueryData :: "'a QueryClient \<Rightarrow> string list \<Rightarrow> 'a CacheValue" where
  "getQueryData qc key = queryData qc key"

definition setQueryData :: "string list \<Rightarrow> 'a list \<Rightarrow> 'a QueryClient \<Rightarrow> 'a QueryClient" where
  "setQueryData key v qc = qc\<lparr>queryData := (queryData qc)(key := Data v)\<rparr>"

definition cancelQueries :: "string list \<Rightarrow> 'a QueryClient \<Rightarrow> 'a QueryClient" where
  "cancelQueries key qc = qc\<lparr>cancelled := cancelled qc @ [key]\<rparr>"

definition invalidateQueries :: "string list \<Rightarrow> 'a QueryClient \<Rightarrow> 'a QueryClient" where
  "invalidateQueries key qc = qc\<lparr>invalidated := invalidated qc @ [key]\<rparr>"

record 'a OptimisticUpdateConfig =
  queryKey :: "string list"
  updateFn :: "'a list \<Rightarrow> 'a list"
  rollbackFn :: "('a list \<Rightarrow> 'a list) option"

text \<open>The context \<open>onMutate\<close> returns and \<open>onError\<close> receives.\<close>

record 'a MutationContext =
  previousData :: "'a CacheValue"

definition onMutate ::
  "'a OptimisticUpdateConfig \<Rightarrow> 'a QueryClient \<Rightarrow> 'a MutationContext \<times> 'a QueryClient" where
  "onMutate config qc =
     (let qc1 = cancelQueries (queryKey config) qc;
          prev = getQueryData qc1 (queryKey config);
          qc2 = (case prev of
                   Data old \<Rightarrow> setQueryData (queryKey config) (updateFn config old) qc1
                 | _ \<Rightarrow> qc1)
      in (\<lparr>previousData = prev\<rparr>, qc2))"

text \<open>
  \<open>onError(error, variables, context)\<close> reads neither \<open>error\<close> nor \<open>variables\<close>;
  \<open>context\<close> may be missing (\<open>context?.previousData\<close>).
\<close>

definition onError ::
  "'a OptimisticUpdateConfig \<Rightarrow> 'a MutationContext option \<Rightarrow> 'a QueryClient \<Rightarrow> 'a QueryClient" where
  "onError config context qc =
     (case context of
        None \<Rightarrow> qc
      | Some ctx \<Rightarrow>
          (case previousData ctx of
             Data old \<Rightarrow>
               (case rollbackFn config of
                  Some rollback \<Rightarrow> setQueryData (queryKey config) (rollback old) qc
                | None \<Rightarrow> qc)
           | _ \<Rightarrow> qc))"

definition onSettled :: "'a OptimisticUpdateConfig \<Rightarrow> 'a QueryClient \<Rightarrow> 'a QueryClient" where
  "onSettled config qc = invalidateQueries (queryKey config) qc"

section \<open>Per-item status poller: \<open>useStatusPoller\<close>\<close>

text \<open>
  An item of the polled list is an object, read by property name; \<open>String(item[statusField])\<close>
  of a missing property is \<open>''undefined''\<close>.
\<close>

type_synonym Item = "(string \<times> string) list"

text \<open>
  The hook's arguments. \<open>stopCondition\<close> is a caller's callback and may throw (\<open>None\<close>),
  which the tick's \<open>try\<close>/\<open>catch\<close> handles.
\<close>

record PollerConfig =
  queryKey_sp :: "string list"
  statusField :: string
  stopCondition :: "string \<Rightarrow> bool option"
  interval :: int
  maxDuration :: int

text \<open>
  A timer that is live in the runtime: its handle, whether \<open>setInterval\<close> or \<open>setTimeout\<close>
  made it, the identifier its callback closes over, and its delay. Handles are positive
  and never reused; \<open>clearInterval\<close> and \<open>clearTimeout\<close> share one pool of handles.
\<close>

datatype TimerKind = Interval | Timeout

record LiveTimer =
  handle :: nat
  kind :: TimerKind
  identifier_t :: string
  period :: int

record Poller =
  pollIntervals :: "(string \<times> nat) list"
  timeoutRefs :: "(string \<times> nat) list"
  timers :: "LiveTimer list"
  nextHandle :: nat
  client :: "Item QueryClient"

definition newPoller :: "Item QueryClient \<Rightarrow> Poller" where
  "newPoller qc =
     \<lparr>pollIntervals = [], timeoutRefs = [], timers = [], nextHandle = 1, client = qc\<rparr>"

definition setInterval :: "string \<Rightarrow> int \<Rightarrow> Poller \<Rightarrow> nat \<times> Poller" where
  "setInterval ident ms p =
     (nextHandle p,
      p\<lparr>timers := timers p @ [\<lparr>handle = nextHandle p, kind = Interval, identifier_t = ident,
                                 period = ms\<rparr>],
        nextHandle := Suc (nextHandle p)\<rparr>)"

definition setTimeout :: "string \<Rightarrow> int \<Rightarrow> Poller \<Rightarrow> nat \<times> Poller" where
  "setTimeout ident ms p =
     (nextHandle p,
      p\<lparr>timers := timers p @ [\<lparr>handle = nextHandle p, kind = Timeout, identifier_t = ident,
                                 period = ms\<rparr>],
        nextHandle := Suc (nextHandle p)\<rparr>)"

definition clearInterval :: "nat \<Rightarrow> Poller \<Rightarrow> Poller" where
  "clearInterval h p = p\<lparr>timers := filter (\<lambda>t. handle t \<noteq> h) (timers p)\<rparr>"

definition clearTimeout :: "nat \<Rightarrow> Poller \<Rightarrow> Poller" where
  "clearTimeout h p = p\<lparr>timers := filter (\<lambda>t. handle t \<noteq> h) (timers p)\<rparr>"

definition stopPolling :: "string \<Rightarrow> Poller \<Rightarrow> Poller" where
  "stopPolling ident p =
     (let p1 = (case map_of (pollIntervals p) ident of
                  Some h \<Rightarrow>
                    if h \<noteq> 0
                    then (clearInterval h p)\<lparr>pollIntervals := AList.delete ident (pollIntervals p)\<rparr>
                    else p
                | None \<Rightarrow> p)
      in case map_of (timeoutRefs p1) ident of
           Some h \<Rightarrow>
             if h \<noteq> 0
             then (clearTimeout h p1)\<lparr>timeoutRefs := AList.delete ident (timeoutRefs p1)\<rparr>
             else p1
         | None \<Rightarrow> p1)"

definition startPolling :: "PollerConfig \<Rightarrow> string \<Rightarrow> Poller \<Rightarrow> Poller" where
  "startPolling cfg ident p =
     (let p1 = stopPolling ident p;
          (pollInterval, p2) = setInterval ident (interval cfg) p1;
          p3 = p2\<lparr>pollIntervals := AList.update ident pollInterval (pollIntervals p2)\<rparr>;
          (timeoutRef, p4) = setTimeout ident (maxDuration cfg) p3
      in p4\<lparr>timeoutRefs := AList.update ident timeoutRef (timeoutRefs p4)\<rparr>)"

definition stopAllPolling :: "Poller \<Rightarrow> Poller" where
  "stopAllPolling p =
     (let p1 = fold (\<lambda>(k, h). clearInterval h) (pollIntervals p) p;
          p2 = p1\<lparr>pollIntervals := []\<rparr>;
          p3 = fold (\<lambda>(k, h). clearTimeout h) (timeoutRefs p2) p2
      in p3\<lparr>timeoutRefs := []\<rparr>)"

text \<open>The callback of the interval timer of \<open>ident\<close>.\<close>

definition tick :: "PollerConfig \<Rightarrow> string \<Rightarrow> Poller \<Rightarrow> Poller" where
  "tick cfg ident p =
     (case getQueryData (client p) (queryKey_sp cfg) of
        Data currentData \<Rightarrow>
          (case find (\<lambda>item. map_of item ''name'' = Some ident) currentData of
             None \<Rightarrow> p
           | Some item \<Rightarrow>
               (let st = (case map_of item (statusField cfg) of
                            Some v \<Rightarrow> v
                          | None \<Rightarrow> ''undefined'')
                in case stopCondition cfg st of
                     Some True \<Rightarrow> stopPolling ident p
                   | Some False \<Rightarrow>
                       p\<lparr>client := invalidateQueries (queryKey_sp cfg) (client p)\<rparr>
                   | None \<Rightarrow> stopPolling ident p))
      | _ \<Rightarrow> p)"

text \<open>
  The runtime fires the live timer with handle \<open>h\<close>: an interval timer runs its tick and
  stays live, a timeout is spent and runs \<open>stopPolling\<close>. A handle that is not live fires
  nothing.
\<close>

definition timerFires :: "PollerConfig \<Rightarrow> nat \<Rightarrow> Poller \<Rightarrow> Poller" where
  "timerFires cfg h p =
     (case find (\<lambda>t. handle t = h) (timers p) of
        None \<Rightarrow> p
      | Some t \<Rightarrow>
          (case kind t of
             Interval \<Rightarrow> tick cfg (identifier_t t) p
           | Timeout \<Rightarrow>
               stopPolling (identifier_t t)
                 (p\<lparr>timers := filter (\<lambda>t. handle t \<noteq> h) (timers p)\<rparr>)))"

text \<open>
  What can happen to a mounted poller: the three calls it returns, a timer firing, and a
  write to the shared cache by the rest of the application.
\<close>

datatype PollerEvent =
    StartPolling string
  | StopPolling string
  | StopAllPolling
  | TimerFires nat
  | CacheWrite "string list" "Item CacheValue"

fun pollerStep :: "PollerConfig \<Rightarrow> PollerEvent \<Rightarrow> Poller \<Rightarrow> Poller" where
  "pollerStep cfg (StartPolling ident) p = startPolling cfg ident p"
| "pollerStep cfg (StopPolling ident) p = stopPolling ident p"
| "pollerStep cfg StopAllPolling p = stopAllPolling p"
| "pollerStep cfg (TimerFires h) p = timerFires cfg h p"
| "pollerStep cfg (CacheWrite key v) p =
     p\<lparr>client := (client p)\<lparr>queryData := (queryData (client p))(key := v)\<rparr>\<rparr>"

definition pollerRun :: "PollerConfig \<Rightarrow> PollerEvent list \<Rightarrow> Poller \<Rightarrow> Poller" where
  "pollerRun cfg events p = fold (pollerStep cfg) events p"

text \<open>The live timers of one kind whose callback belongs to \<open>ident\<close>.\<close>

definition liveTimers :: "TimerKind \<Rightarrow> string \<Rightarrow> Poller \<Rightarrow> LiveTimer list" where
  "liveTimers k ident p = filter (\<lambda>t. kind t = k \<and> identifier_t t = ident) (timers p)"

text \<open>
  The invariant of a mounted poller: the live timers are exactly the handles the two maps
  hold, each under the identifier of its callback, and a key is in both maps or in none.
\<close>

definition pollerInv :: "Poller \<Rightarrow> bool" where
  "pollerInv p \<longleftrightarrow>
     0 < nextHandle p \<and>
     distinct (map handle (timers p)) \<and>
     (\<forall>t \<in> set (timers p). 0 < handle t \<and> handle t < nextHandle p) \<and>
     (\<forall>t \<in> set (timers p). kind t = Interval \<longrightarrow>
        map_of (pollIntervals p) (identifier_t t) = Some (handle t)) \<and>
     (\<forall>t \<in> set (timers p). kind t = Timeout \<longrightarrow>
        map_of (timeoutRefs p) (identifier_t t) = Some (handle t)) \<and>
     (\<forall>k h. map_of (pollIntervals p) k = Some h \<longrightarrow>
        (\<exists>t \<in> set (timers p). handle t = h \<and> kind t = Interval \<and> identifier_t t = k)) \<and>
     (\<forall>k h. map_of (timeoutRefs p) k = Some h \<longrightarrow>
        (\<exists>t \<in> set (timers p). handle t = h \<and> kind t = Timeout \<and> identifier_t t = k)) \<and>
     dom (map_of (pollIntervals p)) = dom (map_of (timeoutRefs p))"

section \<open>Credentials of the transport client\<close>

lemma setAuthToken_not_both:
  "\<not> (truthy (authToken (setAuthToken token c)) \<and> truthy (apiKey (setAuthToken token c)))"
  by (simp add: setAuthToken_def Let_def)

lemma setApiKey_not_both:
  "\<not> (truthy (authToken (setApiKey key c)) \<and> truthy (apiKey (setApiKey key c)))"
  by (simp add: setApiKey_def Let_def)

lemma credentialCalls_not_both:
  "\<not> (truthy (authToken c) \<and> truthy (apiKey c)) \<Longrightarrow>
   \<not> (truthy (authToken (credentialCalls calls c)) \<and> truthy (apiKey (credentialCalls calls c)))"
  unfolding credentialCalls_def
proof (induction calls arbitrary: c)
  case Nil
  then show ?case by simp
next
  case (Cons call calls)
  have "\<not> (truthy (authToken (credentialCall call c)) \<and> truthy (apiKey (credentialCall call c)))"
    by (cases call) (simp_all add: setAuthToken_not_both setApiKey_not_both)
  from Cons.IH [OF this] show ?case by simp
qed

text \<open>
  C5, as stated, fails: \<open>setAuthToken\<close> and \<open>setApiKey\<close> clear the other credential under
  \<open>if (token)\<close> and \<open>if (key)\<close>, and the empty string is not \<open>null\<close> but falsy. After
  \<open>setApiKey("key-1")\<close> and \<open>setAuthToken("")\<close> both fields are non-null: the non-null
  bearer token \<open>""\<close> has not cleared the API key.
\<close>

theorem credential_both_non_null_counterexample:
  "authToken (credentialCalls [SetApiKey (Some ''key-1''), SetAuthToken (Some '''')]
      (newApiClient '''' defaultRetryConfig)) \<noteq> None \<and>
   apiKey (credentialCalls [SetApiKey (Some ''key-1''), SetAuthToken (Some '''')]
      (newApiClient '''' defaultRetryConfig)) \<noteq> None"
  by (simp add: credentialCalls_def setApiKey_def setAuthToken_def newApiClient_def)

text \<open>
  C5, amended: with "non-null" read as "non-null and non-empty" (truthy, which is also the
  test \<open>request\<close> uses to pick the credential header). Setting a non-empty API key clears
  the bearer token, setting a non-empty bearer token clears the API key, and after any
  sequence of \<open>setAuthToken\<close> and \<open>setApiKey\<close> calls on a new client the two fields are never
  both non-empty.
\<close>

theorem credential_at_most_one_armed:
  "(truthy key \<longrightarrow> authToken (setApiKey key c) = None \<and> apiKey (setApiKey key c) = key) \<and>
   (truthy token \<longrightarrow>
      apiKey (setAuthToken token c) = None \<and> authToken (setAuthToken token c) = token) \<and>
   \<not> (truthy (authToken (credentialCalls calls (newApiClient url cfg))) \<and>
      truthy (apiKey (credentialCalls calls (newApiClient url cfg))))"
proof -
  have "\<not> (truthy (authToken (newApiClient url cfg)) \<and> truthy (apiKey (newApiClient url cfg)))"
    by (simp add: newApiClient_def)
  from credentialCalls_not_both [OF this] show ?thesis
    by (simp add: setApiKey_def setAuthToken_def Let_def)
qed

theorem credential_at_most_one_armed_witness:
  "truthy (Some ''key-1'') \<and> truthy (Some ''jwt-1'') \<and>
   authToken (setApiKey (Some ''key-1'')
      (setAuthToken (Some ''jwt-1'') (newApiClient '''' defaultRetryConfig))) = None \<and>
   apiKey (setAuthToken (Some ''jwt-1'')
      (setApiKey (Some ''key-1'') (newApiClient '''' defaultRetryConfig))) = None \<and>
   \<not> (truthy (authToken (credentialCalls [SetAuthToken (Some ''jwt-1''), SetApiKey (Some ''key-1'')]
          (newApiClient '''' defaultRetryConfig))) \<and>
      truthy (apiKey (credentialCalls [SetAuthToken (Some ''jwt-1''), SetApiKey (Some ''key-1'')]
          (newApiClient '''' defaultRetryConfig))))"
  using credential_at_most_one_armed [of "Some ''key-1''"
      "setAuthToken (Some ''jwt-1'') (newApiClient '''' defaultRetryConfig)"
      "Some ''jwt-1''" "[SetAuthToken (Some ''jwt-1''), SetApiKey (Some ''key-1'')]"
      "''''" defaultRetryConfig]
    credential_at_most_one_armed [of "Some ''key-1''"
      "setApiKey (Some ''key-1'') (newApiClient '''' defaultRetryConfig)"
      "Some ''jwt-1''" "[]" "''''" defaultRetryConfig]
  by simp

section \<open>Error classification\<close>

text \<open>
  C6, as stated, fails: \<open>parseErrorResponse\<close> tests the status for 401, 403 and 500 before
  it looks at \<open>detail\<close> and \<open>message\<close>. A 401 response whose body carries a \<open>detail\<close>
  yields the canned message, not the detail text.
\<close>

theorem parseErrorResponse_detail_counterexample:
  "parseErrorResponse
     \<lparr>status = 401, statusText = ''Unauthorized'',
      json = Some \<lparr>detail = Some ''Token has expired'', message = None, code = None,
                   field = None\<rparr>\<rparr>
   = ''Authentication failed. Please log in again.'' \<and>
   parseErrorResponse
     \<lparr>status = 401, statusText = ''Unauthorized'',
      json = Some \<lparr>detail = Some ''Token has expired'', message = None, code = None,
                   field = None\<rparr>\<rparr>
   \<noteq> ''Token has expired''"
  by (simp add: parseErrorResponse_def)

text \<open>
  C6, amended: the message is chosen in this order: first a status-specific canned message
  when the status is 401, 403 or 500, whatever the body holds; then the \<open>detail\<close> field of
  the body when it is a non-empty string; then its \<open>message\<close> field; then its \<open>code\<close>
  field, prefixed to the status text; and only otherwise the raw status line. In
  particular a 401, 403 or 500 response whose body carries a \<open>detail\<close> yields the canned
  message.
\<close>

theorem parseErrorResponse_order:
  "(status r = 401 \<longrightarrow> parseErrorResponse r = ''Authentication failed. Please log in again.'') \<and>
   (status r = 403 \<longrightarrow>
      parseErrorResponse r =
        ''Access denied. You don't have permission to perform this action.'') \<and>
   (status r = 500 \<longrightarrow>
      parseErrorResponse r =
        (if json r = None then ''Server error. Please try again later.''
         else ''Server error. Please try again later or contact support.'')) \<and>
   (status r \<notin> {401, 403, 500} \<longrightarrow>
      (\<forall>e. json r = Some e \<longrightarrow>
         (\<forall>d. detail e = Some d \<and> d \<noteq> [] \<longrightarrow> parseErrorResponse r = d) \<and>
         (\<forall>m. \<not> truthy (detail e) \<and> message e = Some m \<and> m \<noteq> [] \<longrightarrow>
              parseErrorResponse r = m) \<and>
         (\<forall>k. \<not> truthy (detail e) \<and> \<not> truthy (message e) \<and> code e = Some k \<and> k \<noteq> [] \<longrightarrow>
              parseErrorResponse r = ''Error '' @ k @ '': '' @ statusText r) \<and>
         (\<not> truthy (detail e) \<and> \<not> truthy (message e) \<and> \<not> truthy (code e) \<longrightarrow>
              parseErrorResponse r = statusLine r)) \<and>
      (json r = None \<longrightarrow> parseErrorResponse r = statusLine r))"
  by (auto simp: parseErrorResponse_def split: option.splits)

theorem parseErrorResponse_order_witness:
  "parseErrorResponse
     \<lparr>status = 403, statusText = ''Forbidden'',
      json = Some \<lparr>detail = Some ''Not enough permissions'', message = None, code = None,
                   field = None\<rparr>\<rparr>
   = ''Access denied. You don't have permission to perform this action.'' \<and>
   parseErrorResponse
     \<lparr>status = 404, statusText = ''Not Found'',
      json = Some \<lparr>detail = Some ''Server not found'', message = Some ''missing'',
                   code = None, field = None\<rparr>\<rparr>
   = ''Server not found'' \<and>
   parseErrorResponse
     \<lparr>status = 404, statusText = ''Not Found'',
      json = Some \<lparr>detail = Some '''', message = Some ''missing'', code = None,
                   field = None\<rparr>\<rparr>
   = ''missing'' \<and>
   parseErrorResponse
     \<lparr>status = 404, statusText = ''Not Found'', json = (None :: ApiError option)\<rparr>
   = ''API request failed: Not Found (404)''"
  using
    parseErrorResponse_order [of
      "\<lparr>status = 403, statusText = ''Forbidden'',
        json = Some \<lparr>detail = Some ''Not enough permissions'', message = None, code = None,
                     field = None\<rparr>\<rparr>"]
    parseErrorResponse_order [of
      "\<lparr>status = 404, statusText = ''Not Found'',
        json = Some \<lparr>detail = Some ''Server not found'', message = Some ''missing'',
                     code = None, field = None\<rparr>\<rparr>"]
    parseErrorResponse_order [of
      "\<lparr>status = 404, statusText = ''Not Found'',
        json = Some \<lparr>detail = Some '''', message = Some ''missing'', code = None,
                     field = None\<rparr>\<rparr>"]
    parseErrorResponse_order [of
      "\<lparr>status = 404, statusText = ''Not Found'', json = (None :: ApiError option)\<rparr>"]
  by (simp add: statusLine_def show_int_def)

section \<open>Retry behaviour of \<open>request\<close>\<close>

lemma fetch_outcome [simp]: "fst (fetch net url options hdrs w) = net (served w)"
  by (simp add: fetch_def)

lemma fetch_world [simp]:
  "snd (fetch net url options hdrs w) =
     w\<lparr>served := Suc (served w), trace := trace w @ [Fetch url (http_method options) hdrs]\<rparr>"
  by (simp add: fetch_def)

lemma request_retry_on_status:
  assumes "net (served w) = Responded r" and "\<not> ok r"
    and "shouldRetry c endpoint options retryCount r"
  shows "request c net endpoint options retryCount w =
         request c net endpoint options (retryCount + 1)
           (delay (retryDelay (retryConfig c) * (retryCount + 1))
              (snd (fetch net (baseUrl c @ endpoint) options (buildHeaders c options) w)))"
  using assms by (subst request.simps) (simp add: Let_def split_beta)

lemma request_retry_after_throw:
  assumes "net (served w) = Responded r" and "\<not> ok r"
    and "\<not> shouldRetry c endpoint options retryCount r"
    and "retryCount < maxRetries (retryConfig c)"
  shows "request c net endpoint options retryCount w =
         request c net endpoint options (retryCount + 1)
           (delay (retryDelay (retryConfig c) * (retryCount + 1))
              ((if status r = 401 then loginRedirect else (\<lambda>w. w))
                 (snd (fetch net (baseUrl c @ endpoint) options (buildHeaders c options) w))))"
  using assms by (subst request.simps) (simp add: Let_def split_beta)

lemma request_surfaces_error:
  assumes "net (served w) = Responded r" and "\<not> ok r"
    and "\<not> retryCount < maxRetries (retryConfig c)"
  shows "request c net endpoint options retryCount w =
         (Inl (Error (parseErrorResponse r)),
          (if status r = 401 then loginRedirect else (\<lambda>w. w))
            (snd (fetch net (baseUrl c @ endpoint) options (buildHeaders c options) w)))"
  using assms by (subst request.simps) (simp add: Let_def split_beta shouldRetry_def)


lemma served_delay [simp]: "served (delay ms w) = served w"
  by (simp add: delay_def)

lemma trace_delay [simp]: "trace (delay ms w) = trace w @ [Delay ms]"
  by (simp add: delay_def)

lemma served_loginRedirect [simp]: "served (loginRedirect w) = served w"
  by (simp add: loginRedirect_def split: option.splits)

lemma request_rejected_retry:
  assumes "net (served w) = Rejected (ErrorInstance m)"
    and "retryCount < maxRetries (retryConfig c)"
  shows "request c net endpoint options retryCount w =
         request c net endpoint options (retryCount + 1)
           (delay (retryDelay (retryConfig c) * (retryCount + 1))
              (snd (fetch net (baseUrl c @ endpoint) options (buildHeaders c options) w)))"
  using assms by (subst request.simps) (simp add: Let_def split_beta)

lemma request_rejected_surfaces:
  assumes "net (served w) = Rejected e"
    and "(\<exists>m. e = ErrorInstance m) \<longrightarrow> \<not> retryCount < maxRetries (retryConfig c)"
  shows "request c net endpoint options retryCount w =
         (Inl (Error (getErrorMessage e)),
          snd (fetch net (baseUrl c @ endpoint) options (buildHeaders c options) w))"
  using assms
  by (subst request.simps) (cases e; simp add: Let_def split_beta getErrorMessage_def)

lemma request_ok_world:
  assumes "net (served w) = Responded r" and "ok r"
  shows "snd (request c net endpoint options retryCount w) =
         snd (fetch net (baseUrl c @ endpoint) options (buildHeaders c options) w)"
  using assms
  by (subst request.simps) (simp add: Let_def split_beta split: option.splits)

text \<open>Every call of \<open>request\<close> issues at least one fetch.\<close>

lemma request_fetches:
  "served w < served (snd (request c net endpoint options retryCount w))"
proof (induction "nat (maxRetries (retryConfig c) - retryCount)" arbitrary: retryCount w)
  case 0
  then have last: "\<not> retryCount < maxRetries (retryConfig c)" by simp
  show ?case
  proof (cases "net (served w)")
    case (Responded r)
    show ?thesis
    proof (cases "ok r")
      case True
      show ?thesis
        by (simp add: request_ok_world [where net = net and w = w, OF Responded True])
    next
      case False
      show ?thesis
        by (simp add: request_surfaces_error [where net = net and w = w, OF Responded False last])
    qed
  next
    case (Rejected e)
    with last show ?thesis
      by (simp add: request_rejected_surfaces [where net = net and w = w and e = e])
  qed
next
  case (Suc k)
  then have k: "k = nat (maxRetries (retryConfig c) - (retryCount + 1))"
    and more: "retryCount < maxRetries (retryConfig c)" by simp_all
  have le: "served w < served (snd (request c net endpoint options (retryCount + 1) w'))"
    if "served w' = Suc (served w)" for w'
    using Suc.hyps(1) [OF k, of w'] that by simp
  show ?case
  proof (cases "net (served w)")
    case (Responded r)
    show ?thesis
    proof (cases "ok r")
      case True
      show ?thesis
        by (simp add: request_ok_world [where net = net and w = w, OF Responded True])
    next
      case False
      show ?thesis
      proof (cases "shouldRetry c endpoint options retryCount r")
        case True
        show ?thesis
          by (simp add: request_retry_on_status [where net = net and w = w, OF Responded False True] le)
      next
        case no: False
        show ?thesis
          by (simp add: request_retry_after_throw [where net = net and w = w, OF Responded False no more] le)
      qed
    qed
  next
    case (Rejected e)
    show ?thesis
    proof (cases "\<exists>m. e = ErrorInstance m")
      case True
      then obtain m where "e = ErrorInstance m" by blast
      with Rejected more show ?thesis
        by (simp add: request_rejected_retry [where net = net and w = w and m = m] le)
    next
      case False
      with Rejected show ?thesis
        by (simp add: request_rejected_surfaces [where net = net and w = w and e = e])
    qed
  qed
qed

text \<open>
  C2: the code does not do what the claim says. A 404 is not in \<open>retryStatuses\<close>, so
  \<open>shouldRetry\<close> is false and \<open>request\<close> throws the classified error; but the \<open>throw\<close>
  stands inside the \<open>try\<close> block, its own \<open>catch\<close> block (written for network failures)
  catches it and retries while \<open>retryCount < maxRetries\<close>. With the default configuration a
  GET answered 404 every time is fetched four times, with delays of 1000, 2000 and 3000 ms,
  before the error reaches the caller.
\<close>

theorem request_404_is_retried:
  "request (newApiClient '''' defaultRetryConfig)
     (\<lambda>n. Responded \<lparr>status = 404, statusText = ''Not Found'', json = (None :: ApiError option)\<rparr>)
     ''/api/servers/'' noOptions 0 \<lparr>pathname = Some ''/app/servers'', served = 0, trace = []\<rparr>
   = (Inl (Error ''API request failed: Not Found (404)''),
      \<lparr>pathname = Some ''/app/servers'', served = 4,
       trace =
         [Fetch ''/api/servers/'' None [(''Content-Type'', ''application/json'')],
          Delay 1000,
          Fetch ''/api/servers/'' None [(''Content-Type'', ''application/json'')],
          Delay 2000,
          Fetch ''/api/servers/'' None [(''Content-Type'', ''application/json'')],
          Delay 3000,
          Fetch ''/api/servers/'' None [(''Content-Type'', ''application/json'')]]\<rparr>)"
  by code_simp

text \<open>
  C1, as stated, fails: the exception path of the code is a deny-list, not an allow-list.
  \<open>shouldRetryOnServerError\<close> is \<open>!isNonIdempotent || endpoint !== "/api/auth/api-keys"\<close>,
  so a POST to any other path is retried on a 500, and it is the POST to
  \<open>/api/auth/api-keys\<close> (creating an API key) that the retry decision refuses. Here a
  POST to \<open>/api/servers/alpha/start\<close> answered 500 and then 200 is sent twice, and the
  caller sees the second answer, not the 500.
\<close>

theorem non_idempotent_500_counterexample:
  "shouldRetry (newApiClient '''' defaultRetryConfig) ''/api/servers/alpha/start''
     \<lparr>http_method = Some ''POST'', headers = [], body = None\<rparr> 0
     \<lparr>status = 500, statusText = ''Internal Server Error'', json = (None :: ApiError option)\<rparr> \<and>
   \<not> shouldRetry (newApiClient '''' defaultRetryConfig) ''/api/auth/api-keys''
     \<lparr>http_method = Some ''POST'', headers = [], body = None\<rparr> 0
     \<lparr>status = 500, statusText = ''Internal Server Error'', json = (None :: ApiError option)\<rparr> \<and>
   request (newApiClient '''' defaultRetryConfig)
     (\<lambda>n. if n = 0
          then Responded \<lparr>status = 500, statusText = ''Internal Server Error'', json = None\<rparr>
          else Responded \<lparr>status = 200, statusText = ''OK'',
                 json = Some \<lparr>detail = None, message = None, code = None, field = None\<rparr>\<rparr>)
     ''/api/servers/alpha/start'' \<lparr>http_method = Some ''POST'', headers = [], body = None\<rparr> 0
     \<lparr>pathname = Some ''/app/servers'', served = 0, trace = []\<rparr>
   = (Inr (Some \<lparr>detail = None, message = None, code = None, field = None\<rparr>),
      \<lparr>pathname = Some ''/app/servers'', served = 2,
       trace =
         [Fetch ''/api/servers/alpha/start'' (Some ''POST'')
            [(''Content-Type'', ''application/json'')],
          Delay 1000,
          Fetch ''/api/servers/alpha/start'' (Some ''POST'')
            [(''Content-Type'', ''application/json'')]]\<rparr>)"
  by code_simp

text \<open>
  C1, amended: for a request with a non-idempotent method (POST, PUT, PATCH or DELETE) that
  receives a 500 response while retries remain and 500 is a retry status, the retry
  decision of \<open>request\<close> is taken if and only if the endpoint is not
  \<open>/api/auth/api-keys\<close>, the single deny-listed path; on every other non-idempotent path
  the 500 is not surfaced: after a delay of \<open>retryDelay * (retryCount + 1)\<close> the request is
  sent again, so that at least two fetches are issued.
\<close>

theorem non_idempotent_500_retry_gate:
  assumes "isNonIdempotent options"
    and "status r = 500"
    and "500 \<in> set (retryStatuses (retryConfig c))"
    and "retryCount < maxRetries (retryConfig c)"
  shows "(shouldRetry c endpoint options retryCount r \<longleftrightarrow> endpoint \<noteq> ''/api/auth/api-keys'') \<and>
         (endpoint \<noteq> ''/api/auth/api-keys'' \<and> net (served w) = Responded r \<longrightarrow>
            request c net endpoint options retryCount w =
              request c net endpoint options (retryCount + 1)
                (delay (retryDelay (retryConfig c) * (retryCount + 1))
                   (snd (fetch net (baseUrl c @ endpoint) options (buildHeaders c options) w))) \<and>
            served w + 2 \<le> served (snd (request c net endpoint options retryCount w)))"
proof -
  have gate: "shouldRetry c endpoint options retryCount r \<longleftrightarrow> endpoint \<noteq> ''/api/auth/api-keys''"
    using assms by (simp add: shouldRetry_def shouldRetryOnServerError_def)
  have "\<not> ok r" using assms(2) by (simp add: ok_def)
  {
    assume ep: "endpoint \<noteq> ''/api/auth/api-keys''" and net: "net (served w) = Responded r"
    from ep gate have yes: "shouldRetry c endpoint options retryCount r" by simp
    note step = request_retry_on_status [where net = net and w = w, OF net \<open>\<not> ok r\<close> yes]
    have "served w + 2 \<le> served (snd (request c net endpoint options retryCount w))"
      using request_fetches [of "delay (retryDelay (retryConfig c) * (retryCount + 1))
                   (snd (fetch net (baseUrl c @ endpoint) options (buildHeaders c options) w))"
               c net endpoint options "retryCount + 1"]
      by (simp add: step)
    note step this
  }
  with gate show ?thesis by blast
qed

theorem non_idempotent_500_retry_gate_witness:
  "isNonIdempotent \<lparr>http_method = Some ''DELETE'', headers = [], body = None\<rparr> \<and>
   shouldRetry (newApiClient '''' defaultRetryConfig) ''/api/config/servers/alpha''
     \<lparr>http_method = Some ''DELETE'', headers = [], body = None\<rparr> 0
     \<lparr>status = 500, statusText = ''Internal Server Error'', json = (None :: ApiError option)\<rparr> \<and>
   2 \<le> served (snd (request (newApiClient '''' defaultRetryConfig)
          (\<lambda>n. Responded \<lparr>status = 500, statusText = ''Internal Server Error'',
                  json = (None :: ApiError option)\<rparr>)
          ''/api/config/servers/alpha'' \<lparr>http_method = Some ''DELETE'', headers = [], body = None\<rparr>
          0 \<lparr>pathname = Some ''/app/servers'', served = 0, trace = []\<rparr>))"
proof -
  let ?options = "\<lparr>http_method = Some ''DELETE'', headers = [], body = None\<rparr>"
  let ?r = "\<lparr>status = 500, statusText = ''Internal Server Error'',
             json = (None :: ApiError option)\<rparr>"
  let ?c = "newApiClient '''' defaultRetryConfig"
  let ?w = "\<lparr>pathname = Some ''/app/servers'', served = 0, trace = []\<rparr>"
  have h1: "isNonIdempotent ?options" by (simp add: isNonIdempotent_def)
  have h2: "status ?r = 500" by simp
  have h3: "500 \<in> set (retryStatuses (retryConfig ?c))"
    by (simp add: newApiClient_def defaultRetryConfig_def)
  have h4: "0 < maxRetries (retryConfig ?c)"
    by (simp add: newApiClient_def defaultRetryConfig_def)
  note gate = non_idempotent_500_retry_gate [OF h1 h2 h3 h4,
      where endpoint = "''/api/config/servers/alpha''" and net = "\<lambda>n. Responded ?r" and w = ?w]
  have pre: "''/api/config/servers/alpha'' \<noteq> ''/api/auth/api-keys'' \<and>
             (\<lambda>n. Responded ?r) (served ?w) = Responded ?r" by simp
  from gate pre have "shouldRetry ?c ''/api/config/servers/alpha'' ?options 0 ?r"
    and "served ?w + 2 \<le> served (snd (request ?c (\<lambda>n. Responded ?r)
            ''/api/config/servers/alpha'' ?options 0 ?w))"
    by blast+
  with h1 show ?thesis by simp
qed

text \<open>
  C3: while every answer has status 408, 429, 502, 503 or 504 (all of them retry statuses,
  as in the default configuration), \<open>request\<close> sends the request again until \<open>retryCount\<close>
  reaches \<open>maxRetries\<close>; the delay before retry attempt \<open>n\<close> is \<open>retryDelay * n\<close>; and the
  error classified from the last response is what the caller receives. The trace is
  exactly: fetch, delay, fetch, ..., delay, fetch.
\<close>

theorem transient_status_retried_with_linear_backoff:
  assumes "retryCount \<le> maxRetries (retryConfig c)"
    and "{408, 429, 502, 503, 504} \<subseteq> set (retryStatuses (retryConfig c))"
    and "\<forall>i. i \<le> nat (maxRetries (retryConfig c) - retryCount) \<longrightarrow>
           (\<exists>r. net (served w + i) = Responded r \<and> status r \<in> {408, 429, 502, 503, 504})"
  shows "\<exists>r. net (served w + nat (maxRetries (retryConfig c) - retryCount)) = Responded r \<and>
           request c net endpoint options retryCount w =
             (Inl (Error (parseErrorResponse r)),
              w\<lparr>served := served w + nat (maxRetries (retryConfig c) - retryCount) + 1,
                trace := trace w @
                  concat (map (\<lambda>n. [Fetch (baseUrl c @ endpoint) (http_method options)
                                       (buildHeaders c options),
                                     Delay (retryDelay (retryConfig c) * n)])
                            [retryCount + 1 .. maxRetries (retryConfig c)]) @
                  [Fetch (baseUrl c @ endpoint) (http_method options) (buildHeaders c options)]\<rparr>)"
  using assms
proof (induction "nat (maxRetries (retryConfig c) - retryCount)" arbitrary: retryCount w)
  case 0
  then have last: "\<not> retryCount < maxRetries (retryConfig c)" by simp
  from "0.prems"(3) obtain r where r: "net (served w) = Responded r"
    and st: "status r \<in> {408, 429, 502, 503, 504}" by force
  from st have nok: "\<not> ok r" and n401: "status r \<noteq> 401" by (auto simp: ok_def)
  from last "0.prems"(1) have eq: "maxRetries (retryConfig c) = retryCount" by simp
  show ?case
    using r n401
    by (simp add: request_surfaces_error [where net = net and w = w, OF r nok last] eq)
next
  case (Suc k)
  then have k: "k = nat (maxRetries (retryConfig c) - (retryCount + 1))"
    and more: "retryCount < maxRetries (retryConfig c)" by simp_all
  from Suc.prems(3) obtain r where r: "net (served w) = Responded r"
    and st: "status r \<in> {408, 429, 502, 503, 504}" by force
  from st have nok: "\<not> ok r" by (auto simp: ok_def)
  from st Suc.prems(2) more have yes: "shouldRetry c endpoint options retryCount r"
    by (auto simp: shouldRetry_def)
  define w' where "w' = delay (retryDelay (retryConfig c) * (retryCount + 1))
      (snd (fetch net (baseUrl c @ endpoint) options (buildHeaders c options) w))"
  have step: "request c net endpoint options retryCount w =
              request c net endpoint options (retryCount + 1) w'"
    unfolding w'_def by (rule request_retry_on_status [where net = net and w = w, OF r nok yes])
  have served': "served w' = Suc (served w)" by (simp add: w'_def)
  have p1: "retryCount + 1 \<le> maxRetries (retryConfig c)" using more by simp
  have p3: "\<forall>i. i \<le> nat (maxRetries (retryConfig c) - (retryCount + 1)) \<longrightarrow>
           (\<exists>r. net (served w' + i) = Responded r \<and> status r \<in> {408, 429, 502, 503, 504})"
  proof (intro allI impI)
    fix i assume "i \<le> nat (maxRetries (retryConfig c) - (retryCount + 1))"
    then have "Suc i \<le> nat (maxRetries (retryConfig c) - retryCount)" using more by simp
    with Suc.prems(3) [rule_format, of "Suc i"]
    show "\<exists>r. net (served w' + i) = Responded r \<and> status r \<in> {408, 429, 502, 503, 504}"
      by (simp add: served')
  qed
  from Suc.hyps(1) [OF k p1 Suc.prems(2) p3]
  obtain r' where r': "net (served w' + nat (maxRetries (retryConfig c) - (retryCount + 1))) = Responded r'"
    and res: "request c net endpoint options (retryCount + 1) w' =
             (Inl (Error (parseErrorResponse r')),
              w'\<lparr>served := served w' + nat (maxRetries (retryConfig c) - (retryCount + 1)) + 1,
                trace := trace w' @
                  concat (map (\<lambda>n. [Fetch (baseUrl c @ endpoint) (http_method options)
                                       (buildHeaders c options),
                                     Delay (retryDelay (retryConfig c) * n)])
                            [retryCount + 1 + 1 .. maxRetries (retryConfig c)]) @
                  [Fetch (baseUrl c @ endpoint) (http_method options) (buildHeaders c options)]\<rparr>)"
    by blast
  have idx: "served w' + nat (maxRetries (retryConfig c) - (retryCount + 1)) =
             served w + nat (maxRetries (retryConfig c) - retryCount)"
    using more by (simp add: served')
  have up: "[retryCount + 1 .. maxRetries (retryConfig c)] =
            (retryCount + 1) # [retryCount + 1 + 1 .. maxRetries (retryConfig c)]"
    using p1 by (rule upto_rec1)
  have "request c net endpoint options retryCount w =
             (Inl (Error (parseErrorResponse r')),
              w\<lparr>served := served w + nat (maxRetries (retryConfig c) - retryCount) + 1,
                trace := trace w @
                  concat (map (\<lambda>n. [Fetch (baseUrl c @ endpoint) (http_method options)
                                       (buildHeaders c options),
                                     Delay (retryDelay (retryConfig c) * n)])
                            [retryCount + 1 .. maxRetries (retryConfig c)]) @
                  [Fetch (baseUrl c @ endpoint) (http_method options) (buildHeaders c options)]\<rparr>)"
    unfolding step res up using idx by (simp add: w'_def delay_def)
  with r' idx show ?case by auto
qed

theorem transient_status_retried_with_linear_backoff_witness:
  "request (newApiClient '''' defaultRetryConfig)
     (\<lambda>n. Responded \<lparr>status = 503, statusText = ''Service Unavailable'',
             json = (None :: ApiError option)\<rparr>)
     ''/api/status/'' noOptions 0 \<lparr>pathname = Some ''/app/servers'', served = 0, trace = []\<rparr>
   = (Inl (Error ''API request failed: Service Unavailable (503)''),
      \<lparr>pathname = Some ''/app/servers'', served = 4,
       trace =
         [Fetch ''/api/status/'' None [(''Content-Type'', ''application/json'')],
          Delay 1000,
          Fetch ''/api/status/'' None [(''Content-Type'', ''application/json'')],
          Delay 2000,
          Fetch ''/api/status/'' None [(''Content-Type'', ''application/json'')],
          Delay 3000,
          Fetch ''/api/status/'' None [(''Content-Type'', ''application/json'')]]\<rparr>)"
  using transient_status_retried_with_linear_backoff [of 0 "newApiClient '''' defaultRetryConfig"
      "\<lambda>n. Responded \<lparr>status = 503, statusText = ''Service Unavailable'',
             json = (None :: ApiError option)\<rparr>"
      "\<lparr>pathname = Some ''/app/servers'', served = 0, trace = []\<rparr>" "''/api/status/''" noOptions]
  by (simp add: newApiClient_def defaultRetryConfig_def noOptions_def buildHeaders_def
        parseErrorResponse_def statusLine_def show_int_def upto.simps)

section \<open>Boot of the authentication state machine\<close>

lemma getStoredToken_absent:
  "localStorage app TOKEN_KEY = None \<Longrightarrow> getStoredToken app = None"
  by (simp add: getStoredToken_def)

text \<open>With a persisted token the boot does go to the network: one fetch at least.\<close>

lemma boot_with_token_fetches:
  assumes "truthy (getStoredToken app)"
  shows "served (world app) < served (world (bootEffect net app))"
proof -
  let ?app1 = "setupAuthInterceptor (getStoredToken app) app"
  have w: "world ?app1 = world app" by (simp add: setupAuthInterceptor_def)
  have "served (world app) < served (snd (getCurrentUser (api ?app1) net (world ?app1)))"
    unfolding getCurrentUser_def w by (rule request_fetches)
  then show ?thesis
    using assms
    by (simp add: bootEffect_def Let_def split_beta dispatch_def setupAuthInterceptor_def
          removeStoredToken_def split: sum.splits)
qed

text \<open>
  C7: when the provider boots and \<open>localStorage\<close> holds no token, the effect takes the
  \<open>else\<close> branch: it issues no network call (the world, with its fetch counter and its
  trace, is unchanged), arms no bearer token, and the session goes from the initial state
  to \<open>{user: null, isAuthenticated: false, isLoading: false}\<close>.
\<close>

theorem boot_without_token:
  assumes "localStorage app TOKEN_KEY = None"
    and "session app = initialState"
  shows "session (bootEffect net app) = \<lparr>user = None, isAuthenticated = False, isLoading = False\<rparr> \<and>
         world (bootEffect net app) = world app \<and>
         localStorage (bootEffect net app) = localStorage app \<and>
         authToken (api (bootEffect net app)) = None"
  using assms
  by (simp add: bootEffect_def getStoredToken_absent dispatch_def setupAuthInterceptor_def
        setAuthToken_def initialState_def)

theorem boot_without_token_witness:
  "session (bootEffect (\<lambda>n. Rejected (ErrorInstance ''Failed to fetch''))
      (startApp '''' Map.empty \<lparr>pathname = Some ''/'', served = 0, trace = []\<rparr>))
   = \<lparr>user = None, isAuthenticated = False, isLoading = False\<rparr> \<and>
   world (bootEffect (\<lambda>n. Rejected (ErrorInstance ''Failed to fetch''))
      (startApp '''' Map.empty \<lparr>pathname = Some ''/'', served = 0, trace = []\<rparr>))
   = \<lparr>pathname = Some ''/'', served = 0, trace = []\<rparr>"
  using boot_without_token [of
      "startApp '''' Map.empty \<lparr>pathname = Some ''/'', served = 0, trace = []\<rparr>"
      "\<lambda>n. Rejected (ErrorInstance ''Failed to fetch'')"]
  by (simp add: startApp_def)

section \<open>Gate of the query orchestrator\<close>


lemma useSystemQuery_queryFn [simp]:
  "queryFn (useSystemQuery key fn options auth isVisible) = fn"
  by (simp add: useSystemQuery_def Let_def)

lemma useSystemQuery_select [simp]:
  "select (useSystemQuery key fn options auth isVisible) = None"
  by (simp add: useSystemQuery_def Let_def)









section \<open>Optimistic update and rollback\<close>

lemma getQueryData_setQueryData [simp]:
  "getQueryData (setQueryData key v qc) key = Data v"
  by (simp add: getQueryData_def setQueryData_def)

lemma getQueryData_cancelQueries [simp]:
  "getQueryData (cancelQueries key qc) key' = getQueryData qc key'"
  by (simp add: getQueryData_def cancelQueries_def)

lemma queryData_cancelQueries [simp]: "queryData (cancelQueries key qc) = queryData qc"
  by (simp add: cancelQueries_def)

text \<open>
  C8, as stated, fails: on failure the cache is not set to the snapshot but to
  \<open>rollbackFn(snapshot)\<close>, and nothing makes the caller's transform the identity. Here
  the optimistic update appends item 3 and the rollback filters item 3 out; the cache held
  \<open>[1, 3]\<close> before the mutation and holds \<open>[1]\<close> after the failure.
\<close>

theorem rollback_not_snapshot_counterexample:
  "getQueryData
     \<lparr>queryData = (\<lambda>k. if k = [''servers'', ''list''] then Data [1, 3 :: nat] else Undefined),
      cancelled = [], invalidated = []\<rparr> [''servers'', ''list'']
   = Data [1, 3] \<and>
   getQueryData
     (onError
        \<lparr>queryKey = [''servers'', ''list''], updateFn = (\<lambda>old. old @ [3]),
         rollbackFn = Some (filter (\<lambda>x. x \<noteq> 3))\<rparr>
        (Some (fst (onMutate
           \<lparr>queryKey = [''servers'', ''list''], updateFn = (\<lambda>old. old @ [3]),
            rollbackFn = Some (filter (\<lambda>x. x \<noteq> 3))\<rparr>
           \<lparr>queryData = (\<lambda>k. if k = [''servers'', ''list''] then Data [1, 3 :: nat] else Undefined),
            cancelled = [], invalidated = []\<rparr>)))
        (snd (onMutate
           \<lparr>queryKey = [''servers'', ''list''], updateFn = (\<lambda>old. old @ [3]),
            rollbackFn = Some (filter (\<lambda>x. x \<noteq> 3))\<rparr>
           \<lparr>queryData = (\<lambda>k. if k = [''servers'', ''list''] then Data [1, 3 :: nat] else Undefined),
            cancelled = [], invalidated = []\<rparr>)))
     [''servers'', ''list'']
   = Data [1]"
  by (simp add: onMutate_def onError_def Let_def getQueryData_def setQueryData_def
        cancelQueries_def)

text \<open>
  C8, amended: for an optimistic mutation configured with a rollback transform, started
  while the cache holds a value for the declared key, \<open>onMutate\<close> takes that value as the
  snapshot and writes the optimistic value; if the mutation fails, \<open>onError\<close> sets the
  cache value for the key to the rollback transform applied to the snapshot, whatever the
  cache holds by then. That is the pre-mutation value when the transform returns the
  snapshot unchanged.
\<close>

theorem failed_mutation_writes_rollback_of_snapshot:
  assumes "getQueryData qc (queryKey config) = Data old"
    and "rollbackFn config = Some rollback"
  shows "previousData (fst (onMutate config qc)) = Data old \<and>
         getQueryData (snd (onMutate config qc)) (queryKey config) = Data (updateFn config old) \<and>
         (\<forall>qc'. getQueryData (onError config (Some (fst (onMutate config qc))) qc')
                  (queryKey config) = Data (rollback old)) \<and>
         (rollback old = old \<longrightarrow>
            getQueryData (onError config (Some (fst (onMutate config qc)))
                            (snd (onMutate config qc))) (queryKey config)
            = getQueryData qc (queryKey config))"
  using assms by (simp add: onMutate_def onError_def Let_def)

theorem failed_mutation_writes_rollback_of_snapshot_witness:
  "getQueryData
     (onError
        \<lparr>queryKey = [''servers'', ''list''], updateFn = (\<lambda>old. old @ [3]),
         rollbackFn = Some (\<lambda>old. old)\<rparr>
        (Some (fst (onMutate
           \<lparr>queryKey = [''servers'', ''list''], updateFn = (\<lambda>old. old @ [3]),
            rollbackFn = Some (\<lambda>old. old)\<rparr>
           \<lparr>queryData = (\<lambda>k. if k = [''servers'', ''list''] then Data [1, 2 :: nat] else Undefined),
            cancelled = [], invalidated = []\<rparr>)))
        (snd (onMutate
           \<lparr>queryKey = [''servers'', ''list''], updateFn = (\<lambda>old. old @ [3]),
            rollbackFn = Some (\<lambda>old. old)\<rparr>
           \<lparr>queryData = (\<lambda>k. if k = [''servers'', ''list''] then Data [1, 2 :: nat] else Undefined),
            cancelled = [], invalidated = []\<rparr>)))
     [''servers'', ''list'']
   = Data [1, 2] \<and>
   getQueryData
     (snd (onMutate
           \<lparr>queryKey = [''servers'', ''list''], updateFn = (\<lambda>old. old @ [3]),
            rollbackFn = Some (\<lambda>old. old)\<rparr>
           \<lparr>queryData = (\<lambda>k. if k = [''servers'', ''list''] then Data [1, 2 :: nat] else Undefined),
            cancelled = [], invalidated = []\<rparr>))
     [''servers'', ''list'']
   = Data [1, 2, 3]"
proof -
  let ?config = "\<lparr>queryKey = [''servers'', ''list''], updateFn = (\<lambda>old. old @ [3 :: nat]),
                  rollbackFn = Some (\<lambda>old. old)\<rparr>"
  let ?qc = "\<lparr>queryData = (\<lambda>k. if k = [''servers'', ''list''] then Data [1, 2 :: nat] else Undefined),
              cancelled = [], invalidated = []\<rparr>"
  have h1: "getQueryData ?qc (queryKey ?config) = Data [1, 2]" by (simp add: getQueryData_def)
  have h2: "rollbackFn ?config = Some (\<lambda>old. old)" by simp
  from failed_mutation_writes_rollback_of_snapshot [OF h1 h2] show ?thesis by simp
qed

text \<open>
  C10: when the cache holds \<open>undefined\<close> or \<open>null\<close> for the declared key as the mutation
  starts, \<open>onMutate\<close> writes nothing to the cache and hands the missing value on as the
  snapshot, and \<open>onError\<close> with that context writes nothing either, whatever the cache
  holds by then. In general \<open>onMutate\<close> leaves the cache data as it is unless a previous
  value exists, and then it changes the declared key only.
\<close>

theorem no_previous_value_no_cache_write:
  "(getQueryData qc (queryKey config) = Undefined \<or> getQueryData qc (queryKey config) = Null \<longrightarrow>
      queryData (snd (onMutate config qc)) = queryData qc \<and>
      previousData (fst (onMutate config qc)) = getQueryData qc (queryKey config) \<and>
      (\<forall>qc'. queryData (onError config (Some (fst (onMutate config qc))) qc') = queryData qc')) \<and>
   (queryData (snd (onMutate config qc)) \<noteq> queryData qc \<longrightarrow>
      present (getQueryData qc (queryKey config))) \<and>
   (\<forall>old. getQueryData qc (queryKey config) = Data old \<longrightarrow>
      queryData (snd (onMutate config qc)) =
        (queryData qc)(queryKey config := Data (updateFn config old)))"
  by (auto simp: onMutate_def onError_def Let_def getQueryData_def setQueryData_def
        cancelQueries_def split: CacheValue.splits option.splits)

theorem no_previous_value_no_cache_write_witness:
  "queryData
     (snd (onMutate
        \<lparr>queryKey = [''servers'', ''list''], updateFn = (\<lambda>old. old @ [3 :: nat]),
         rollbackFn = Some (\<lambda>old. old)\<rparr>
        \<lparr>queryData = (\<lambda>k. Undefined), cancelled = [], invalidated = []\<rparr>))
   = (\<lambda>k. Undefined) \<and>
   queryData
     (onError
        \<lparr>queryKey = [''servers'', ''list''], updateFn = (\<lambda>old. old @ [3 :: nat]),
         rollbackFn = Some (\<lambda>old. old)\<rparr>
        (Some (fst (onMutate
           \<lparr>queryKey = [''servers'', ''list''], updateFn = (\<lambda>old. old @ [3 :: nat]),
            rollbackFn = Some (\<lambda>old. old)\<rparr>
           \<lparr>queryData = (\<lambda>k. Undefined), cancelled = [], invalidated = []\<rparr>)))
        \<lparr>queryData = (\<lambda>k. Null), cancelled = [], invalidated = []\<rparr>)
   = (\<lambda>k. Null)"
proof -
  let ?config = "\<lparr>queryKey = [''servers'', ''list''], updateFn = (\<lambda>old. old @ [3 :: nat]),
                  rollbackFn = Some (\<lambda>old. old)\<rparr>"
  let ?qc = "\<lparr>queryData = (\<lambda>k. Undefined :: nat CacheValue), cancelled = [], invalidated = []\<rparr>"
  have h: "getQueryData ?qc (queryKey ?config) = Undefined" by (simp add: getQueryData_def)
  from no_previous_value_no_cache_write [of ?qc ?config] h show ?thesis by simp
qed

section \<open>Timers of the status poller\<close>

lemma pollerInv_newPoller: "pollerInv (newPoller qc)"
  by (simp add: pollerInv_def newPoller_def)

lemma pollerInv_client [simp]: "pollerInv (p\<lparr>client := qc\<rparr>) = pollerInv p"
  by (simp add: pollerInv_def)

lemma same_handle_same_timer:
  assumes "distinct (map handle ts)" and "t \<in> set ts" and "t' \<in> set ts"
    and "handle t = handle t'"
  shows "t = t'"
  using assms by (meson distinct_map inj_onD)

text \<open>Under the invariant, \<open>stopPolling\<close> removes the timers of its identifier, and no other.\<close>

lemma stopPolling_timers:
  assumes "pollerInv p"
  shows "stopPolling ident p =
         p\<lparr>timers := filter (\<lambda>t. identifier_t t \<noteq> ident) (timers p),
           pollIntervals := AList.delete ident (pollIntervals p),
           timeoutRefs := AList.delete ident (timeoutRefs p)\<rparr>"
proof (cases "map_of (pollIntervals p) ident")
  case None
  with assms have none: "map_of (timeoutRefs p) ident = None"
    unfolding pollerInv_def by (metis domIff)
  have no_timer: "identifier_t t \<noteq> ident" if "t \<in> set (timers p)" for t
    using assms that None none unfolding pollerInv_def
    by (cases "kind t") auto
  from None have d1: "AList.delete ident (pollIntervals p) = pollIntervals p"
    by (simp add: delete_id map_of_eq_None_iff)
  from none have d2: "AList.delete ident (timeoutRefs p) = timeoutRefs p"
    by (simp add: delete_id map_of_eq_None_iff)
  have "filter (\<lambda>t. identifier_t t \<noteq> ident) (timers p) = timers p"
    using no_timer by (simp add: filter_id_conv)
  with None none d1 d2 show ?thesis by (simp add: stopPolling_def)
next
  case (Some hi)
  with assms obtain ht where ht: "map_of (timeoutRefs p) ident = Some ht"
    unfolding pollerInv_def by (metis domD domI)
  from assms Some obtain ti where ti: "ti \<in> set (timers p)" "handle ti = hi"
    "kind ti = Interval" "identifier_t ti = ident"
    unfolding pollerInv_def by blast
  from assms ht obtain tt where tt: "tt \<in> set (timers p)" "handle tt = ht"
    "kind tt = Timeout" "identifier_t tt = ident"
    unfolding pollerInv_def by blast
  from assms have dist: "distinct (map handle (timers p))" by (simp add: pollerInv_def)
  from assms ti have hi0: "hi \<noteq> 0" unfolding pollerInv_def by force
  from assms tt have ht0: "ht \<noteq> 0" unfolding pollerInv_def by force
  have iff: "(handle t \<noteq> hi \<and> handle t \<noteq> ht) \<longleftrightarrow> identifier_t t \<noteq> ident"
    if t: "t \<in> set (timers p)" for t
  proof
    assume "handle t \<noteq> hi \<and> handle t \<noteq> ht"
    show "identifier_t t \<noteq> ident"
    proof
      assume "identifier_t t = ident"
      with assms t Some ht have "handle t = hi \<or> handle t = ht"
        unfolding pollerInv_def by (cases "kind t") force+
      with \<open>handle t \<noteq> hi \<and> handle t \<noteq> ht\<close> show False by simp
    qed
  next
    assume ne: "identifier_t t \<noteq> ident"
    show "handle t \<noteq> hi \<and> handle t \<noteq> ht"
      using same_handle_same_timer [OF dist t ti(1)] same_handle_same_timer [OF dist t tt(1)]
        ne ti tt by auto
  qed
  have "filter (\<lambda>t. handle t \<noteq> ht) (filter (\<lambda>t. handle t \<noteq> hi) (timers p)) =
        filter (\<lambda>t. identifier_t t \<noteq> ident) (timers p)"
    unfolding filter_filter by (rule filter_cong) (use iff in auto)
  with Some ht hi0 ht0 show ?thesis
    by (simp add: stopPolling_def clearInterval_def clearTimeout_def)
qed

lemma pollerInv_stopPolling:
  assumes "pollerInv p"
  shows "pollerInv (stopPolling ident p)"
proof -
  let ?q = "p\<lparr>timers := filter (\<lambda>t. identifier_t t \<noteq> ident) (timers p),
           pollIntervals := AList.delete ident (pollIntervals p),
           timeoutRefs := AList.delete ident (timeoutRefs p)\<rparr>"
  have 1: "0 < nextHandle ?q" using assms by (simp add: pollerInv_def)
  have 2: "distinct (map handle (timers ?q))"
    using assms by (simp add: pollerInv_def distinct_map_filter)
  have 3: "\<forall>t \<in> set (timers ?q). 0 < handle t \<and> handle t < nextHandle ?q"
    using assms by (simp add: pollerInv_def)
  have 4: "\<forall>t \<in> set (timers ?q). kind t = Interval \<longrightarrow>
        map_of (pollIntervals ?q) (identifier_t t) = Some (handle t)"
    using assms by (simp add: pollerInv_def delete_conv')
  have 5: "\<forall>t \<in> set (timers ?q). kind t = Timeout \<longrightarrow>
        map_of (timeoutRefs ?q) (identifier_t t) = Some (handle t)"
    using assms by (simp add: pollerInv_def delete_conv')
  have 6: "\<forall>k h. map_of (pollIntervals ?q) k = Some h \<longrightarrow>
        (\<exists>t \<in> set (timers ?q). handle t = h \<and> kind t = Interval \<and> identifier_t t = k)"
  proof (intro allI impI)
    fix k h assume "map_of (pollIntervals ?q) k = Some h"
    then have "k \<noteq> ident" and "map_of (pollIntervals p) k = Some h"
      by (auto simp: delete_conv' split: if_splits)
    with assms obtain t where "t \<in> set (timers p)" "handle t = h" "kind t = Interval"
      "identifier_t t = k" unfolding pollerInv_def by blast
    with \<open>k \<noteq> ident\<close>
    show "\<exists>t \<in> set (timers ?q). handle t = h \<and> kind t = Interval \<and> identifier_t t = k"
      by auto
  qed
  have 7: "\<forall>k h. map_of (timeoutRefs ?q) k = Some h \<longrightarrow>
        (\<exists>t \<in> set (timers ?q). handle t = h \<and> kind t = Timeout \<and> identifier_t t = k)"
  proof (intro allI impI)
    fix k h assume "map_of (timeoutRefs ?q) k = Some h"
    then have "k \<noteq> ident" and "map_of (timeoutRefs p) k = Some h"
      by (auto simp: delete_conv' split: if_splits)
    with assms obtain t where "t \<in> set (timers p)" "handle t = h" "kind t = Timeout"
      "identifier_t t = k" unfolding pollerInv_def by blast
    with \<open>k \<noteq> ident\<close>
    show "\<exists>t \<in> set (timers ?q). handle t = h \<and> kind t = Timeout \<and> identifier_t t = k"
      by auto
  qed
  have 8: "dom (map_of (pollIntervals ?q)) = dom (map_of (timeoutRefs ?q))"
    using assms by (simp add: pollerInv_def delete_conv')
  from 1 2 3 4 5 6 7 8 show ?thesis
    unfolding stopPolling_timers [OF assms] pollerInv_def by blast
qed

lemma stopPolling_forgets:
  assumes "pollerInv p"
  shows "map_of (pollIntervals (stopPolling ident p)) ident = None"
    and "map_of (timeoutRefs (stopPolling ident p)) ident = None"
    and "\<forall>t \<in> set (timers (stopPolling ident p)). identifier_t t \<noteq> ident"
    and "nextHandle (stopPolling ident p) = nextHandle p"
  unfolding stopPolling_timers [OF assms] by (simp_all add: delete_conv')

lemma pollerInv_startPolling:
  assumes "pollerInv p"
  shows "pollerInv (startPolling cfg ident p)"
proof -
  define p1 where "p1 = stopPolling ident p"
  define n where "n = nextHandle p1"
  define ti where "ti = \<lparr>handle = n, kind = Interval, identifier_t = ident, period = interval cfg\<rparr>"
  define tt where
    "tt = \<lparr>handle = Suc n, kind = Timeout, identifier_t = ident, period = maxDuration cfg\<rparr>"
  let ?q = "p1\<lparr>timers := timers p1 @ [ti, tt], nextHandle := Suc (Suc n),
               pollIntervals := AList.update ident n (pollIntervals p1),
               timeoutRefs := AList.update ident (Suc n) (timeoutRefs p1)\<rparr>"
  have start: "startPolling cfg ident p = ?q"
    by (simp add: startPolling_def setInterval_def setTimeout_def Let_def p1_def n_def ti_def
          tt_def)
  have inv1: "pollerInv p1" unfolding p1_def by (rule pollerInv_stopPolling [OF assms])
  have gone: "\<forall>t \<in> set (timers p1). identifier_t t \<noteq> ident"
    unfolding p1_def by (rule stopPolling_forgets(3) [OF assms])
  have below: "\<forall>t \<in> set (timers p1). 0 < handle t \<and> handle t < n"
    using inv1 by (simp add: pollerInv_def n_def)
  have n0: "0 < n" using inv1 by (simp add: pollerInv_def n_def)
  have 1: "0 < nextHandle ?q" by simp
  have 2: "distinct (map handle (timers ?q))"
    using inv1 below by (auto simp: pollerInv_def ti_def tt_def)
  have 3: "\<forall>t \<in> set (timers ?q). 0 < handle t \<and> handle t < nextHandle ?q"
    using below n0 by (auto simp: ti_def tt_def)
  have 4: "\<forall>t \<in> set (timers ?q). kind t = Interval \<longrightarrow>
        map_of (pollIntervals ?q) (identifier_t t) = Some (handle t)"
    using inv1 gone by (auto simp: pollerInv_def update_conv' ti_def tt_def)
  have 5: "\<forall>t \<in> set (timers ?q). kind t = Timeout \<longrightarrow>
        map_of (timeoutRefs ?q) (identifier_t t) = Some (handle t)"
    using inv1 gone by (auto simp: pollerInv_def update_conv' ti_def tt_def)
  have 6: "\<forall>k h. map_of (pollIntervals ?q) k = Some h \<longrightarrow>
        (\<exists>t \<in> set (timers ?q). handle t = h \<and> kind t = Interval \<and> identifier_t t = k)"
  proof (intro allI impI)
    fix k h assume a: "map_of (pollIntervals ?q) k = Some h"
    show "\<exists>t \<in> set (timers ?q). handle t = h \<and> kind t = Interval \<and> identifier_t t = k"
    proof (cases "k = ident")
      case True
      with a have "h = n" by (simp add: update_conv')
      with True show ?thesis by (auto simp: ti_def)
    next
      case False
      with a have "map_of (pollIntervals p1) k = Some h" by (simp add: update_conv')
      with inv1 obtain t where "t \<in> set (timers p1)" "handle t = h" "kind t = Interval"
        "identifier_t t = k" unfolding pollerInv_def by blast
      then show ?thesis by auto
    qed
  qed
  have 7: "\<forall>k h. map_of (timeoutRefs ?q) k = Some h \<longrightarrow>
        (\<exists>t \<in> set (timers ?q). handle t = h \<and> kind t = Timeout \<and> identifier_t t = k)"
  proof (intro allI impI)
    fix k h assume a: "map_of (timeoutRefs ?q) k = Some h"
    show "\<exists>t \<in> set (timers ?q). handle t = h \<and> kind t = Timeout \<and> identifier_t t = k"
    proof (cases "k = ident")
      case True
      with a have "h = Suc n" by (simp add: update_conv')
      with True show ?thesis by (auto simp: tt_def)
    next
      case False
      with a have "map_of (timeoutRefs p1) k = Some h" by (simp add: update_conv')
      with inv1 obtain t where "t \<in> set (timers p1)" "handle t = h" "kind t = Timeout"
        "identifier_t t = k" unfolding pollerInv_def by blast
      then show ?thesis by auto
    qed
  qed
  have 8: "dom (map_of (pollIntervals ?q)) = dom (map_of (timeoutRefs ?q))"
    using inv1 by (simp add: pollerInv_def update_conv')
  from 1 2 3 4 5 6 7 8 show ?thesis unfolding start pollerInv_def by blast
qed

lemma startPolling_registers:
  "map_of (pollIntervals (startPolling cfg ident p)) ident \<noteq> None"
  by (simp add: startPolling_def setInterval_def setTimeout_def Let_def update_conv')

lemma fold_clearInterval:
  "fold (\<lambda>(k, h). clearInterval h) xs p =
     p\<lparr>timers := filter (\<lambda>t. handle t \<notin> snd ` set xs) (timers p)\<rparr>"
proof (induction xs arbitrary: p)
  case Nil
  then show ?case by simp
next
  case (Cons x xs)
  have "filter (\<lambda>t. handle t \<notin> snd ` set xs) (filter (\<lambda>t. handle t \<noteq> snd x) (timers p)) =
        filter (\<lambda>t. handle t \<notin> snd ` set (x # xs)) (timers p)"
    unfolding filter_filter by (rule filter_cong) auto
  then show ?case
    by (cases x) (simp add: Cons.IH, simp add: clearInterval_def)
qed

lemma fold_clearTimeout:
  "fold (\<lambda>(k, h). clearTimeout h) xs p =
     p\<lparr>timers := filter (\<lambda>t. handle t \<notin> snd ` set xs) (timers p)\<rparr>"
proof (induction xs arbitrary: p)
  case Nil
  then show ?case by simp
next
  case (Cons x xs)
  have "filter (\<lambda>t. handle t \<notin> snd ` set xs) (filter (\<lambda>t. handle t \<noteq> snd x) (timers p)) =
        filter (\<lambda>t. handle t \<notin> snd ` set (x # xs)) (timers p)"
    unfolding filter_filter by (rule filter_cong) auto
  then show ?case
    by (cases x) (simp add: Cons.IH, simp add: clearTimeout_def)
qed

lemma stopAllPolling_clears:
  assumes "pollerInv p"
  shows "stopAllPolling p = p\<lparr>timers := [], pollIntervals := [], timeoutRefs := []\<rparr>"
proof -
  have "handle t \<in> snd ` set (pollIntervals p) \<or> handle t \<in> snd ` set (timeoutRefs p)"
    if t: "t \<in> set (timers p)" for t
  proof (cases "kind t")
    case Interval
    with assms t have "map_of (pollIntervals p) (identifier_t t) = Some (handle t)"
      by (simp add: pollerInv_def)
    then have "(identifier_t t, handle t) \<in> set (pollIntervals p)" by (rule map_of_SomeD)
    then show ?thesis by force
  next
    case Timeout
    with assms t have "map_of (timeoutRefs p) (identifier_t t) = Some (handle t)"
      by (simp add: pollerInv_def)
    then have "(identifier_t t, handle t) \<in> set (timeoutRefs p)" by (rule map_of_SomeD)
    then show ?thesis by force
  qed
  then have "filter (\<lambda>t. handle t \<notin> snd ` set (timeoutRefs p))
               (filter (\<lambda>t. handle t \<notin> snd ` set (pollIntervals p)) (timers p)) = []"
    by (auto simp: filter_empty_conv)
  then show ?thesis
    by (simp add: stopAllPolling_def Let_def fold_clearInterval fold_clearTimeout)
qed

lemma pollerInv_stopAllPolling:
  assumes "pollerInv p"
  shows "pollerInv (stopAllPolling p)"
  unfolding stopAllPolling_clears [OF assms]
  using assms by (simp add: pollerInv_def)

lemma pollerInv_tick:
  assumes "pollerInv p"
  shows "pollerInv (tick cfg ident p)"
  using assms
  by (auto simp: tick_def Let_def pollerInv_stopPolling
        split: CacheValue.splits option.splits bool.splits)

text \<open>
  A spent timeout: its callback finds the handle still in \<open>timeoutRefs\<close> and clears it
  once more, so the outcome is that of \<open>stopPolling\<close>.
\<close>

lemma spent_timeout_stopPolling:
  assumes "pollerInv p" and "t \<in> set (timers p)" and "kind t = Timeout"
  shows "stopPolling (identifier_t t)
           (p\<lparr>timers := filter (\<lambda>t'. handle t' \<noteq> handle t) (timers p)\<rparr>)
         = stopPolling (identifier_t t) p"
proof -
  from assms have ht: "map_of (timeoutRefs p) (identifier_t t) = Some (handle t)"
    and h0: "handle t \<noteq> 0"
    unfolding pollerInv_def by force+
  have twice: "filter (\<lambda>x. handle x \<noteq> handle t \<and> handle x \<noteq> handle t) (timers p) =
               filter (\<lambda>x. handle x \<noteq> handle t) (timers p)"
    by (rule filter_cong) auto
  have thrice: "filter (\<lambda>x. handle x \<noteq> handle t \<and> handle x \<noteq> hi \<and> handle x \<noteq> handle t) (timers p) =
                filter (\<lambda>x. handle x \<noteq> hi \<and> handle x \<noteq> handle t) (timers p)" for hi
    by (rule filter_cong) auto
  show ?thesis
    using ht h0
    by (cases "map_of (pollIntervals p) (identifier_t t)")
       (simp_all add: stopPolling_def clearInterval_def clearTimeout_def Let_def twice thrice)
qed

lemma pollerInv_timerFires:
  assumes "pollerInv p"
  shows "pollerInv (timerFires cfg h p)"
proof (cases "find (\<lambda>t. handle t = h) (timers p)")
  case None
  with assms show ?thesis by (simp add: timerFires_def)
next
  case (Some t)
  then have t: "t \<in> set (timers p)" and h: "handle t = h"
    by (auto simp: find_Some_iff)
  show ?thesis
  proof (cases "kind t")
    case Interval
    with Some assms show ?thesis by (simp add: timerFires_def pollerInv_tick)
  next
    case Timeout
    from spent_timeout_stopPolling [OF assms t Timeout] Some Timeout h assms
    show ?thesis by (simp add: timerFires_def pollerInv_stopPolling)
  qed
qed

lemma pollerInv_pollerStep:
  assumes "pollerInv p"
  shows "pollerInv (pollerStep cfg e p)"
  using assms
  by (cases e)
     (simp_all add: pollerInv_startPolling pollerInv_stopPolling pollerInv_stopAllPolling
        pollerInv_timerFires)

lemma pollerInv_pollerRun:
  assumes "pollerInv p"
  shows "pollerInv (pollerRun cfg events p)"
  using assms unfolding pollerRun_def
  by (induction events arbitrary: p) (simp_all add: pollerInv_pollerStep)

lemma same_image_at_most_one:
  assumes "distinct (map f xs)" and "\<forall>x \<in> set xs. P x \<longrightarrow> f x = h"
  shows "length (filter P xs) \<le> 1"
  using assms
proof (induction xs)
  case Nil
  then show ?case by simp
next
  case (Cons x xs)
  show ?case
  proof (cases "P x")
    case True
    with Cons.prems have "f x = h" and "h \<notin> f ` set xs" by auto
    with Cons.prems have "filter P xs = []"
      unfolding filter_empty_conv by (metis imageI list.set_intros(2))
    with True show ?thesis by simp
  next
    case False
    with Cons show ?thesis by simp
  qed
qed

text \<open>Under the invariant a key has one live timer of each kind if it is registered, none
  otherwise.\<close>

lemma liveTimers_count:
  assumes "pollerInv p"
  shows "length (liveTimers Interval ident p) =
           (if map_of (pollIntervals p) ident = None then 0 else 1)"
    and "length (liveTimers Timeout ident p) =
           (if map_of (pollIntervals p) ident = None then 0 else 1)"
proof -
  from assms have dist: "distinct (map handle (timers p))" by (simp add: pollerInv_def)
  have one: "length (filter P (timers p)) \<le> 1"
    if "\<forall>t \<in> set (timers p). P t \<longrightarrow> handle t = h" for P h
    using dist that by (rule same_image_at_most_one)
  show "length (liveTimers Interval ident p) =
           (if map_of (pollIntervals p) ident = None then 0 else 1)"
  proof (cases "map_of (pollIntervals p) ident")
    case None
    with assms have "\<forall>t \<in> set (timers p). \<not> (kind t = Interval \<and> identifier_t t = ident)"
      unfolding pollerInv_def by force
    with None show ?thesis by (simp add: liveTimers_def filter_empty_conv)
  next
    case (Some hi)
    with assms have "\<forall>t \<in> set (timers p). kind t = Interval \<and> identifier_t t = ident
                        \<longrightarrow> handle t = hi"
      unfolding pollerInv_def by force
    from one [OF this] have le: "length (liveTimers Interval ident p) \<le> 1"
      by (simp add: liveTimers_def)
    from assms Some have "\<exists>t \<in> set (timers p). kind t = Interval \<and> identifier_t t = ident"
      unfolding pollerInv_def by blast
    then have "liveTimers Interval ident p \<noteq> []"
      by (simp add: liveTimers_def filter_empty_conv)
    with le Some show ?thesis by (cases "liveTimers Interval ident p") auto
  qed
  show "length (liveTimers Timeout ident p) =
           (if map_of (pollIntervals p) ident = None then 0 else 1)"
  proof (cases "map_of (pollIntervals p) ident")
    case None
    with assms have none: "map_of (timeoutRefs p) ident = None"
      unfolding pollerInv_def by (metis domIff)
    with assms have "\<forall>t \<in> set (timers p). \<not> (kind t = Timeout \<and> identifier_t t = ident)"
      unfolding pollerInv_def by force
    with None show ?thesis by (simp add: liveTimers_def filter_empty_conv)
  next
    case (Some hi)
    with assms obtain ht where ht: "map_of (timeoutRefs p) ident = Some ht"
      unfolding pollerInv_def by (metis domD domI)
    with assms have "\<forall>t \<in> set (timers p). kind t = Timeout \<and> identifier_t t = ident
                        \<longrightarrow> handle t = ht"
      unfolding pollerInv_def by force
    from one [OF this] have le: "length (liveTimers Timeout ident p) \<le> 1"
      by (simp add: liveTimers_def)
    from assms ht have "\<exists>t \<in> set (timers p). kind t = Timeout \<and> identifier_t t = ident"
      unfolding pollerInv_def by blast
    then have "liveTimers Timeout ident p \<noteq> []"
      by (simp add: liveTimers_def filter_empty_conv)
    with le Some show ?thesis by (cases "liveTimers Timeout ident p") auto
  qed
qed

text \<open>
  C9: after any sequence of \<open>startPolling\<close>, \<open>stopPolling\<close> and \<open>stopAllPolling\<close> calls
  on a mounted poller (and of timer firings and cache writes in between), every key has at
  most one live interval timer and at most one live timeout, and as many of the one as of
  the other; calling \<open>startPolling\<close> twice in succession for a key leaves exactly one live
  timer of each kind for it; and \<open>stopAllPolling\<close> leaves no live timer at all.
\<close>

theorem poller_one_timer_pair_per_key:
  "length (liveTimers Interval ident (pollerRun cfg events (newPoller qc))) \<le> 1 \<and>
   length (liveTimers Timeout ident (pollerRun cfg events (newPoller qc))) \<le> 1 \<and>
   length (liveTimers Interval ident (pollerRun cfg events (newPoller qc))) =
     length (liveTimers Timeout ident (pollerRun cfg events (newPoller qc))) \<and>
   length (liveTimers Interval ident
      (startPolling cfg ident (startPolling cfg ident (pollerRun cfg events (newPoller qc))))) = 1 \<and>
   length (liveTimers Timeout ident
      (startPolling cfg ident (startPolling cfg ident (pollerRun cfg events (newPoller qc))))) = 1 \<and>
   timers (stopAllPolling (pollerRun cfg events (newPoller qc))) = []"
proof -
  let ?p = "pollerRun cfg events (newPoller qc)"
  have inv: "pollerInv ?p" by (rule pollerInv_pollerRun [OF pollerInv_newPoller])
  have inv2: "pollerInv (startPolling cfg ident (startPolling cfg ident ?p))"
    by (intro pollerInv_startPolling inv)
  note now = liveTimers_count [OF inv, of ident]
  note twice = liveTimers_count [OF inv2, of ident]
  have reg: "map_of (pollIntervals (startPolling cfg ident (startPolling cfg ident ?p))) ident
             \<noteq> None"
    by (rule startPolling_registers)
  have "timers (stopAllPolling ?p) = []" by (simp add: stopAllPolling_clears [OF inv])
  with now twice reg show ?thesis by simp
qed

text \<open>The same on a concrete run: two keys started, one of them twice.\<close>

lemma poller_restart_example:
  "timers (pollerRun
      \<lparr>queryKey_sp = [''servers'', ''list''], statusField = ''state'',
       stopCondition = (\<lambda>s. Some (s = ''running'')), interval = 3000, maxDuration = 30000\<rparr>
      [StartPolling ''alpha'', StartPolling ''beta'', StartPolling ''alpha'']
      (newPoller \<lparr>queryData = (\<lambda>k. Undefined), cancelled = [], invalidated = []\<rparr>))
   = [\<lparr>handle = 3, kind = Interval, identifier_t = ''beta'', period = 3000\<rparr>,
      \<lparr>handle = 4, kind = Timeout, identifier_t = ''beta'', period = 30000\<rparr>,
      \<lparr>handle = 5, kind = Interval, identifier_t = ''alpha'', period = 3000\<rparr>,
      \<lparr>handle = 6, kind = Timeout, identifier_t = ''alpha'', period = 30000\<rparr>]"
  by code_simp

end
